theory Spec2Isabelle
  imports Complex_Main "HOL-Library.Word"
begin

section \<open>The image pipeline of scripts/process-images.mjs\<close>

text \<open>
  The script is modelled as functions over an explicit world: the file tree (a map from
  path strings to regular files and directories), a clock, and a trace of what the script
  did to the outside (probes, tool invocations, reads and writes of the metadata file,
  console output). A JavaScript exception is the value \<open>Throw\<close> of the result type.
  The library functions of \<open>node:path\<close> are written out for POSIX separators;
  \<open>JSON.parse\<close>, \<open>JSON.stringify\<close>, the commands on the PATH, the conversion tools
  and the fate of a write to the disk belong to the host and are taken as parameters (the
  record \<open>env\<close>).
\<close>

subsection \<open>Data\<close>

type_synonym byte = "8 word"
type_synonym path = string

text \<open>A JavaScript string where its characters matter: UTF-16 code units.\<close>

type_synonym ustring = "nat list"

text \<open>
  An entry of the file tree is a regular file or, with \<open>directory\<close> set, a directory
  (whose \<open>content\<close> is not used).
\<close>

record fsfile =
  content :: "byte list"
  mtimeMs :: int
  readable :: bool
  directory :: bool

datatype converter = Ffmpeg | SipsCwebp

datatype imageType = Png | Jpeg | Other

datatype jsval = JUndefined | JNull | JBool bool | JNum rat | JStr string | JObject string

record entry =
  image :: jsval
  imageWebp :: jsval
  others :: "(string \<times> jsval) list"

text \<open>
  What \<open>JSON.parse\<close> can return. An element of an array is an object (an entry), \<open>null\<close>,
  or anything else (a number, a string, a boolean, an array), on which the property
  \<open>image\<close> is undefined. A document that is not an array cannot be iterated, except a
  string, which iterates as its characters and is an array of such elements here.
\<close>

datatype item = Obj entry | NullItem | Atom jsval

datatype document = Items "item list" | NotIterable

datatype error =
    NoConverter
  | ENOENT path
  | EACCES path
  | EISDIR path
  | ENOSPC path
  | EROFS path
  | SyntaxError
  | TypeError
  | CommandFailed string ustring

datatype 'a result = Ok 'a | Throw error

datatype event =
    Probe string
  | ReadFile path
  | Spawn string "string list" int
  | WriteFile path
  | Warn string
  | Summary nat converter

record world =
  files :: "path \<rightharpoonup> fsfile"
  clock :: int
  trace :: "event list"

text \<open>
  What a tool did: its exit status, what it printed on the error stream (if that was
  captured), the bytes it left at its output path (if any) and the time it took.
\<close>

record tool_result =
  status :: int
  stderr :: "ustring option"
  written :: "byte list option"
  elapsed :: nat

text \<open>
  What became of a write to the disk: it succeeded, it failed and left the file as it was,
  or it failed after the file was truncated and left the bytes given.
\<close>

datatype write_outcome = Written | Refused error | Torn error "byte list"

record env =
  projectRoot :: path
  on_PATH :: "string \<Rightarrow> bool"
  JSON_parse :: "byte list \<Rightarrow> document option"
  JSON_stringify :: "item list \<Rightarrow> byte list"
  tool :: "string \<Rightarrow> string list \<Rightarrow> (path \<rightharpoonup> fsfile) \<Rightarrow> tool_result"
  disk :: "path \<Rightarrow> byte list \<Rightarrow> (path \<rightharpoonup> fsfile) \<Rightarrow> write_outcome"

subsection \<open>node:path, POSIX flavour\<close>

text \<open>\<open>s.split("/")\<close> and \<open>a.join("/")\<close>.\<close>

fun splitSep :: "string \<Rightarrow> string list" where
  "splitSep [] = [[]]"
| "splitSep (c # cs) =
     (if c = CHR ''/'' then [] # splitSep cs
      else (case splitSep cs of [] \<Rightarrow> [[c]] | x # xs \<Rightarrow> (c # x) # xs))"

fun joinSep :: "string list \<Rightarrow> string" where
  "joinSep [] = []"
| "joinSep [x] = x"
| "joinSep (x # y # ys) = x @ ''/'' @ joinSep (y # ys)"

definition isAbsolute :: "path \<Rightarrow> bool" where
  "isAbsolute p = (case p of [] \<Rightarrow> False | c # _ \<Rightarrow> c = CHR ''/'')"

definition startsWith :: "string \<Rightarrow> string \<Rightarrow> bool" where
  "startsWith s pre = (take (length pre) s = pre)"

text \<open>
  \<open>normalizeString\<close>: one pass over the segments, dropping empty ones and \<open>.\<close>, and
  letting \<open>..\<close> remove the segment before it.
\<close>

definition norm_step :: "bool \<Rightarrow> string list \<Rightarrow> string \<Rightarrow> string list" where
  "norm_step allowAboveRoot res seg =
     (if seg = [] \<or> seg = ''.'' then res
      else if seg = ''..'' then
        (if res \<noteq> [] \<and> last res \<noteq> ''..'' then butlast res
         else if allowAboveRoot then res @ [''..''] else res)
      else res @ [seg])"

definition normalizeSegs :: "path \<Rightarrow> bool \<Rightarrow> string list" where
  "normalizeSegs p allowAboveRoot = foldl (norm_step allowAboveRoot) [] (splitSep p)"

definition normalizeString :: "path \<Rightarrow> bool \<Rightarrow> path" where
  "normalizeString p allowAboveRoot = joinSep (normalizeSegs p allowAboveRoot)"

definition normalize :: "path \<Rightarrow> path" where
  "normalize p =
     (if p = [] then ''.''
      else
        let isAbs = isAbsolute p;
            trailingSeparator = (last p = CHR ''/'');
            q = normalizeString p (\<not> isAbs)
        in if q = [] then (if isAbs then ''/'' else if trailingSeparator then ''./'' else ''.'')
           else (if isAbs then ''/'' else []) @ q @ (if trailingSeparator then ''/'' else []))"

definition join :: "path list \<Rightarrow> path" where
  "join args =
     (let parts = filter (\<lambda>a. a \<noteq> []) args
      in if parts = [] then ''.'' else normalize (joinSep parts))"

text \<open>
  \<open>path.resolve\<close> of one argument against the working directory, as the list of
  segments of the resolved path, and \<open>path.relative\<close> on resolved paths: climb out of
  what \<open>from\<close> has beyond the common directories, then descend into \<open>to\<close>.
\<close>

definition resolveSegs :: "path \<Rightarrow> path \<Rightarrow> string list" where
  "resolveSegs cwd p =
     (let r = (if isAbsolute p then p else cwd @ ''/'' @ p)
      in normalizeSegs r (\<not> isAbsolute r))"

fun common_prefix :: "'a list \<Rightarrow> 'a list \<Rightarrow> 'a list" where
  "common_prefix (x # xs) (y # ys) = (if x = y then x # common_prefix xs ys else [])"
| "common_prefix _ _ = []"

definition relative :: "path \<Rightarrow> path \<Rightarrow> path \<Rightarrow> path" where
  "relative cwd from to =
     (if from = to then []
      else
        let fs = resolveSegs cwd from;
            ts = resolveSegs cwd to;
            c = length (common_prefix fs ts)
        in joinSep (replicate (length fs - c) ''..'' @ drop c ts))"

text \<open>
  \<open>path.parse\<close>: trailing separators are ignored, \<open>base\<close> is what follows the last
  separator, \<open>dir\<close> what precedes it, and \<open>ext\<close> starts at the last dot of \<open>base\<close>
  unless that dot is its first character or \<open>base\<close> is \<open>..\<close>.
\<close>

record parsed =
  dir :: path
  base :: string
  ext :: string
  name :: string

definition stripTrailingSep :: "string \<Rightarrow> string" where
  "stripTrailingSep s = rev (dropWhile (\<lambda>c. c = CHR ''/'') (rev s))"

definition lastDot :: "string \<Rightarrow> nat option" where
  "lastDot b =
     (if CHR ''.'' \<in> set b
      then Some (length b - 1 - length (takeWhile (\<lambda>c. c \<noteq> CHR ''.'') (rev b)))
      else None)"

definition parse :: "path \<Rightarrow> parsed" where
  "parse p =
     (let isAbs = isAbsolute p;
          body = stripTrailingSep (if isAbs then tl p else p);
          b = rev (takeWhile (\<lambda>c. c \<noteq> CHR ''/'') (rev body));
          hasSep = (CHR ''/'' \<in> set body);
          d = (if hasSep
               then (if isAbs then ''/'' else []) @ take (length body - length b - 1) body
               else if isAbs then ''/'' else []);
          noExt = (case lastDot b of
                     None \<Rightarrow> True
                   | Some k \<Rightarrow> k = 0 \<or> (b = ''..'' \<and> \<not> (isAbs \<and> \<not> hasSep)))
      in if noExt then \<lparr>dir = d, base = b, ext = [], name = b\<rparr>
         else \<lparr>dir = d, base = b, ext = drop (the (lastDot b)) b, name = take (the (lastDot b)) b\<rparr>)"

subsection \<open>The script: paths\<close>

definition videosPath :: "env \<Rightarrow> path" where
  "videosPath e = join [projectRoot e, ''src'', ''_data'', ''videos.json'']"

definition toPublicPath :: "env \<Rightarrow> path \<Rightarrow> string" where
  "toPublicPath e localPath =
     (let assetsRoot = join [projectRoot e, ''src''];
          rel = relative (projectRoot e) assetsRoot localPath
      in ''/'' @ joinSep (splitSep rel))"

definition resolveInputPath :: "env \<Rightarrow> string \<Rightarrow> path" where
  "resolveInputPath e imagePath =
     (if startsWith imagePath ''/'' then join [projectRoot e, ''src'', tl imagePath]
      else if startsWith imagePath ''assets/'' then join [projectRoot e, ''src'', imagePath]
      else join [projectRoot e, ''src'', ''assets'', ''images'', imagePath])"

subsection \<open>The script: files\<close>

text \<open>\<open>existsSync\<close> holds of directories as well as of regular files.\<close>

definition fileExists :: "world \<Rightarrow> path \<Rightarrow> bool" where
  "fileExists w p = (files w p \<noteq> None)"

text \<open>
  \<open>readSignature\<close> opens the file, which throws when it is absent or cannot be read,
  and reads at most \<open>n\<close> bytes into a zero-filled buffer of \<open>n\<close> bytes, which throws on
  a directory.
\<close>

definition readSignature :: "world \<Rightarrow> path \<Rightarrow> nat \<Rightarrow> byte list result" where
  "readSignature w p n =
     (case files w p of
        None \<Rightarrow> Throw (ENOENT p)
      | Some f \<Rightarrow>
          if \<not> readable f then Throw (EACCES p)
          else if directory f then Throw (EISDIR p)
          else Ok (take n (content f @ replicate n 0)))"

definition png_signature :: "byte list" where
  "png_signature = [0x89, 0x50, 0x4e, 0x47, 0x0d, 0x0a, 0x1a, 0x0a]"

definition isPng :: "world \<Rightarrow> path \<Rightarrow> bool result" where
  "isPng w p =
     (case readSignature w p 8 of
        Throw x \<Rightarrow> Throw x
      | Ok signature \<Rightarrow> Ok (signature = png_signature))"

definition isJpeg :: "world \<Rightarrow> path \<Rightarrow> bool result" where
  "isJpeg w p =
     (case readSignature w p 3 of
        Throw x \<Rightarrow> Throw x
      | Ok signature \<Rightarrow>
          Ok (signature ! 0 = 0xff \<and> signature ! 1 = 0xd8 \<and> signature ! 2 = 0xff))"

definition detectImageType :: "world \<Rightarrow> path \<Rightarrow> imageType result" where
  "detectImageType w p =
     (case isPng w p of
        Throw x \<Rightarrow> Throw x
      | Ok True \<Rightarrow> Ok Png
      | Ok False \<Rightarrow>
          (case isJpeg w p of
             Throw x \<Rightarrow> Throw x
           | Ok True \<Rightarrow> Ok Jpeg
           | Ok False \<Rightarrow> Ok Other))"

text \<open>
  \<open>shouldGenerate\<close>: \<open>statSync\<close> throws on an absent source; it needs no read
  permission on the file itself, and a directory has a modification time too.
\<close>

definition shouldGenerate :: "world \<Rightarrow> path \<Rightarrow> path \<Rightarrow> bool result" where
  "shouldGenerate w sourcePath outputPath =
     (case files w outputPath of
        None \<Rightarrow> Ok True
      | Some outputFile \<Rightarrow>
          (case files w sourcePath of
             None \<Rightarrow> Throw (ENOENT sourcePath)
           | Some sourceFile \<Rightarrow> Ok (mtimeMs sourceFile > mtimeMs outputFile)))"

subsection \<open>Effects\<close>

text \<open>
  An effectful function takes the world and returns a result with the world it leaves.
  \<open>andThen\<close> is sequencing: an exception ends the sequence in the world where it
  was thrown.
\<close>

definition andThen ::
  "(world \<Rightarrow> 'a result \<times> world) \<Rightarrow> ('a \<Rightarrow> world \<Rightarrow> 'b result \<times> world) \<Rightarrow>
   world \<Rightarrow> 'b result \<times> world" where
  "andThen m f w = (case m w of (Throw x, w') \<Rightarrow> (Throw x, w') | (Ok a, w') \<Rightarrow> f a w')"

definition ret :: "'a \<Rightarrow> world \<Rightarrow> 'a result \<times> world" where
  "ret a w = (Ok a, w)"

definition throw :: "error \<Rightarrow> world \<Rightarrow> 'a result \<times> world" where
  "throw x w = (Throw x, w)"

definition observe :: "(world \<Rightarrow> 'a result) \<Rightarrow> world \<Rightarrow> 'a result \<times> world" where
  "observe g w = (g w, w)"

definition emit :: "event \<Rightarrow> world \<Rightarrow> unit result \<times> world" where
  "emit ev w = (Ok (), w\<lparr>trace := trace w @ [ev]\<rparr>)"

subsection \<open>The script: metadata file, probes and tools\<close>

definition readJson :: "env \<Rightarrow> path \<Rightarrow> world \<Rightarrow> document result \<times> world" where
  "readJson e filePath =
     andThen (emit (ReadFile filePath)) (\<lambda>_.
       observe (\<lambda>w.
         case files w filePath of
           None \<Rightarrow> Throw (ENOENT filePath)
         | Some f \<Rightarrow>
             if \<not> readable f then Throw (EACCES filePath)
             else if directory f then Throw (EISDIR filePath)
             else (case JSON_parse e (content f) of
                     None \<Rightarrow> Throw SyntaxError
                   | Some d \<Rightarrow> Ok d)))"

text \<open>
  \<open>writeJson\<close> hands the text to \<open>writeFileSync\<close>, which throws when the host fails the
  write; a write that fails after the file was opened leaves it truncated.
\<close>

definition writeJson :: "env \<Rightarrow> path \<Rightarrow> item list \<Rightarrow> world \<Rightarrow> unit result \<times> world" where
  "writeJson e filePath d w =
     (let text = JSON_stringify e d @ [0x0a];
          w1 = w\<lparr>trace := trace w @ [WriteFile filePath]\<rparr>;
          left = (\<lambda>bytes. w1\<lparr>files := (files w)(filePath \<mapsto>
                    \<lparr>content = bytes, mtimeMs = clock w, readable = True, directory = False\<rparr>)\<rparr>)
      in case disk e filePath text (files w) of
           Written \<Rightarrow> (Ok (), left text)
         | Refused x \<Rightarrow> (Throw x, w1)
         | Torn x bytes \<Rightarrow> (Throw x, left bytes))"

definition commandExists :: "env \<Rightarrow> string \<Rightarrow> world \<Rightarrow> bool result \<times> world" where
  "commandExists e command = andThen (emit (Probe command)) (\<lambda>_. ret (on_PATH e command))"

text \<open>
  A conversion tool runs for some time and may leave bytes at its output path, the last
  of its arguments in each of the script's invocations; the file it leaves carries the
  time at which the tool ended.
\<close>

definition spawnSync :: "env \<Rightarrow> string \<Rightarrow> string list \<Rightarrow> world \<Rightarrow> tool_result \<times> world" where
  "spawnSync e command args w =
     (let r = tool e command args (files w);
          t = clock w + int (elapsed r);
          fs' = (case written r of
                   None \<Rightarrow> files w
                 | Some bytes \<Rightarrow>
                     if args = [] then files w
                     else (files w)(last args \<mapsto>
                            \<lparr>content = bytes, mtimeMs = t, readable = True,
                             directory = False\<rparr>))
      in (r, w\<lparr>files := fs', clock := t, trace := trace w @ [Spawn command args (status r)]\<rparr>))"

text \<open>
  \<open>String.prototype.trim\<close> removes white space and line terminators from both ends:
  TAB, LF, VT, FF, CR, space, no-break space, the zero-width no-break space and the
  space separators of Unicode.
\<close>

definition isSpace :: "nat \<Rightarrow> bool" where
  "isSpace c =
     (c \<in> {0x09, 0x0A, 0x0B, 0x0C, 0x0D, 0x20, 0xA0, 0x1680, 0x2028, 0x2029, 0x202F, 0x205F,
            0x3000, 0xFEFF} \<or>
      (0x2000 \<le> c \<and> c \<le> 0x200A))"

definition trim :: "ustring \<Rightarrow> ustring" where
  "trim s = rev (dropWhile isSpace (rev (dropWhile isSpace s)))"

definition utf16 :: "string \<Rightarrow> ustring" where
  "utf16 s = map of_char s"

text \<open>
  \<open>runCommand\<close>: the message is the trimmed error stream, or a fixed text when the
  stream is absent or blank.
\<close>

definition runCommand :: "env \<Rightarrow> string \<Rightarrow> string list \<Rightarrow> world \<Rightarrow> unit result \<times> world" where
  "runCommand e command args w =
     (case spawnSync e command args w of
        (r, w') \<Rightarrow>
          if status r \<noteq> 0
          then (Throw (CommandFailed command
                  (case stderr r of
                     None \<Rightarrow> utf16 ''Unknown conversion error''
                   | Some text \<Rightarrow>
                       if trim text = [] then utf16 ''Unknown conversion error''
                       else trim text)), w')
          else (Ok (), w'))"

definition convertWithFfmpeg ::
  "env \<Rightarrow> path \<Rightarrow> path \<Rightarrow> path \<Rightarrow> world \<Rightarrow> unit result \<times> world" where
  "convertWithFfmpeg e sourcePath jpgPath webpPath =
     andThen (observe (\<lambda>w. shouldGenerate w sourcePath webpPath)) (\<lambda>staleWebp.
     andThen (if staleWebp
              then runCommand e ''ffmpeg'' [''-y'', ''-i'', sourcePath, ''-q:v'', ''70'', webpPath]
              else ret ()) (\<lambda>_.
     andThen (observe (\<lambda>w. shouldGenerate w sourcePath jpgPath)) (\<lambda>staleJpg.
       if staleJpg
       then runCommand e ''ffmpeg'' [''-y'', ''-i'', sourcePath, ''-q:v'', ''3'', jpgPath]
       else ret ())))"

definition convertWithSipsAndCwebp ::
  "env \<Rightarrow> path \<Rightarrow> path \<Rightarrow> path \<Rightarrow> world \<Rightarrow> unit result \<times> world" where
  "convertWithSipsAndCwebp e sourcePath jpgPath webpPath =
     andThen (observe (\<lambda>w. shouldGenerate w sourcePath jpgPath)) (\<lambda>staleJpg.
     andThen (if staleJpg
              then runCommand e ''sips'' [''-s'', ''format'', ''jpeg'', sourcePath, ''--out'', jpgPath]
              else ret ()) (\<lambda>_.
     andThen (observe (\<lambda>w. shouldGenerate w sourcePath webpPath)) (\<lambda>staleWebp.
       if staleWebp
       then runCommand e ''cwebp'' [''-q'', ''75'', sourcePath, ''-o'', webpPath]
       else ret ())))"

definition convertJpegToWebp ::
  "env \<Rightarrow> converter \<Rightarrow> path \<Rightarrow> path \<Rightarrow> world \<Rightarrow> unit result \<times> world" where
  "convertJpegToWebp e converter sourcePath webpPath =
     andThen (observe (\<lambda>w. shouldGenerate w sourcePath webpPath)) (\<lambda>stale.
       if \<not> stale then ret ()
       else if converter = Ffmpeg
       then runCommand e ''ffmpeg'' [''-y'', ''-i'', sourcePath, ''-q:v'', ''70'', webpPath]
       else runCommand e ''cwebp'' [''-q'', ''75'', sourcePath, ''-o'', webpPath])"

definition pickConverter :: "env \<Rightarrow> world \<Rightarrow> converter result \<times> world" where
  "pickConverter e =
     andThen (commandExists e ''ffmpeg'') (\<lambda>hasFfmpeg.
       if hasFfmpeg then ret Ffmpeg
       else andThen (commandExists e ''sips'') (\<lambda>hasSips.
         if \<not> hasSips then throw NoConverter
         else andThen (commandExists e ''cwebp'') (\<lambda>hasCwebp.
           if hasCwebp then ret SipsCwebp else throw NoConverter)))"

subsection \<open>The script: main\<close>

text \<open>JavaScript truthiness of a JSON value.\<close>

fun truthy :: "jsval \<Rightarrow> bool" where
  "truthy JUndefined = False"
| "truthy JNull = False"
| "truthy (JBool b) = b"
| "truthy (JNum n) = (n \<noteq> 0)"
| "truthy (JStr s) = (s \<noteq> [])"
| "truthy (JObject _) = True"

text \<open>
  The body of the loop on one entry. It returns the entry as the body leaves it, whether
  the entry was counted as processed, and whether it was updated. A truthy \<open>image\<close>
  that is not a string has no \<open>startsWith\<close>: a TypeError.
\<close>

definition process_video ::
  "env \<Rightarrow> converter \<Rightarrow> entry \<Rightarrow> world \<Rightarrow> (entry \<times> bool \<times> bool) result \<times> world" where
  "process_video e converter video =
     (if \<not> truthy (image video) then ret (video, False, False)
      else case image video of
        JStr imagePath \<Rightarrow>
          (let inputPath = resolveInputPath e imagePath in
           andThen (observe (\<lambda>w. Ok (fileExists w inputPath))) (\<lambda>found.
             if \<not> found
             then andThen (emit (Warn imagePath)) (\<lambda>_. ret (video, False, False))
             else
               let parsedPath = parse inputPath in
               andThen (observe (\<lambda>w. detectImageType w inputPath)) (\<lambda>imageType.
                 if imageType = Other then ret (video, False, False)
                 else
                   let webpPath = join [dir parsedPath, name parsedPath @ ''.webp''];
                       jpgPath = join [dir parsedPath, name parsedPath @ ''.jpg'']
                   in
                   andThen
                     (if imageType = Png
                      then (if converter = Ffmpeg
                            then convertWithFfmpeg e inputPath jpgPath webpPath
                            else convertWithSipsAndCwebp e inputPath jpgPath webpPath)
                      else convertJpegToWebp e converter inputPath webpPath) (\<lambda>_.
                     let nextImage = toPublicPath e (if imageType = Png then jpgPath else inputPath);
                         nextWebp = toPublicPath e webpPath
                     in if image video \<noteq> JStr nextImage \<or> imageWebp video \<noteq> JStr nextWebp
                        then ret (video\<lparr>image := JStr nextImage, imageWebp := JStr nextWebp\<rparr>,
                                  True, True)
                        else ret (video, True, False)))))
      | _ \<Rightarrow> throw TypeError)"

text \<open>
  The body on any element of the array: reading \<open>image\<close> off \<open>null\<close> is a TypeError, and
  off anything that is not an object it is undefined, so that the element is passed over.
\<close>

definition loop_body ::
  "env \<Rightarrow> converter \<Rightarrow> item \<Rightarrow> world \<Rightarrow> (item \<times> bool \<times> bool) result \<times> world" where
  "loop_body e converter it =
     (case it of
        Obj video \<Rightarrow>
          andThen (process_video e converter video) (\<lambda>(video', counted, upd).
            ret (Obj video', counted, upd))
      | NullItem \<Rightarrow> throw TypeError
      | Atom _ \<Rightarrow> ret (it, False, False))"

text \<open>
  The loop over the collection, in order: the elements as the loop leaves them, the
  number processed and whether any was updated.
\<close>

fun for_videos ::
  "env \<Rightarrow> converter \<Rightarrow> item list \<Rightarrow> world \<Rightarrow> (item list \<times> nat \<times> bool) result \<times> world" where
  "for_videos e converter [] w = (Ok ([], 0, False), w)"
| "for_videos e converter (video # rest) w =
     (case loop_body e converter video w of
        (Throw x, w') \<Rightarrow> (Throw x, w')
      | (Ok (video', counted, upd), w') \<Rightarrow>
          (case for_videos e converter rest w' of
             (Throw x, w'') \<Rightarrow> (Throw x, w'')
           | (Ok (rest', processed, updatedData), w'') \<Rightarrow>
               (Ok (video' # rest', (if counted then 1 else 0) + processed,
                    upd \<or> updatedData), w'')))"

text \<open>
  \<open>main\<close> returns the collection as it is in memory when the run ends. A document that
  cannot be iterated is a TypeError at the head of the loop.
\<close>

definition main :: "env \<Rightarrow> world \<Rightarrow> item list result \<times> world" where
  "main e =
     andThen (pickConverter e) (\<lambda>converter.
     andThen (readJson e (videosPath e)) (\<lambda>doc.
       case doc of
         NotIterable \<Rightarrow> throw TypeError
       | Items videos \<Rightarrow>
           andThen (for_videos e converter videos) (\<lambda>(videos', processed, updatedData).
           andThen (if updatedData then writeJson e (videosPath e) videos' else ret ()) (\<lambda>_.
           andThen (emit (Summary processed converter)) (\<lambda>_.
             ret videos')))))"

subsection \<open>Notions used in the statements\<close>

text \<open>
  A proper segment is a file or directory name: not empty, free of separators, and
  neither \<open>.\<close> nor \<open>..\<close>.
\<close>

definition proper :: "string \<Rightarrow> bool" where
  "proper s = (s \<noteq> [] \<and> CHR ''/'' \<notin> set s \<and> s \<noteq> ''.'' \<and> s \<noteq> ''..'')"

text \<open>What a computation added to the trace.\<close>

definition new_events :: "world \<Rightarrow> world \<Rightarrow> event list" where
  "new_events w w' = drop (length (trace w)) (trace w')"

text \<open>What the loop does to the outside: it runs tools and prints warnings.\<close>

fun loop_event :: "event \<Rightarrow> bool" where
  "loop_event (Spawn _ _ _) = True"
| "loop_event (Warn _) = True"
| "loop_event _ = False"

fun is_write :: "event \<Rightarrow> bool" where
  "is_write (WriteFile _) = True"
| "is_write _ = False"

fun is_probe :: "event \<Rightarrow> bool" where
  "is_probe (Probe _) = True"
| "is_probe _ = False"

fun is_read :: "event \<Rightarrow> bool" where
  "is_read (ReadFile _) = True"
| "is_read _ = False"

fun is_summary :: "event \<Rightarrow> bool" where
  "is_summary (Summary _ _) = True"
| "is_summary _ = False"

fun is_spawn :: "event \<Rightarrow> bool" where
  "is_spawn (Spawn _ _ _) = True"
| "is_spawn _ = False"

fun spawn_args :: "event \<Rightarrow> string list" where
  "spawn_args (Spawn _ args _) = args"
| "spawn_args _ = []"

fun failed_spawn :: "event \<Rightarrow> bool" where
  "failed_spawn (Spawn _ _ st) = (st \<noteq> 0)"
| "failed_spawn _ = False"

text \<open>
  The loop passes over an element that is not an object, and over an entry that has no
  image reference, or whose reference resolves to nothing in the file tree, or to a file
  that is neither PNG nor JPEG.
\<close>

definition skipped :: "env \<Rightarrow> world \<Rightarrow> item \<Rightarrow> bool" where
  "skipped e w it =
     (case it of
        Obj video \<Rightarrow>
          \<not> truthy (image video) \<or>
          (case image video of
             JStr imagePath \<Rightarrow>
               \<not> fileExists w (resolveInputPath e imagePath) \<or>
               detectImageType w (resolveInputPath e imagePath) = Ok Other
           | _ \<Rightarrow> False)
      | NullItem \<Rightarrow> False
      | Atom _ \<Rightarrow> True)"

text \<open>The other fields of an element, which the loop never touches.\<close>

fun untouched_part :: "item \<Rightarrow> item" where
  "untouched_part (Obj video) = Obj (video\<lparr>image := JUndefined, imageWebp := JUndefined\<rparr>)"
| "untouched_part it = it"

text \<open>
  The invariant of everything that runs between the load of the metadata and its
  rewrite: the file at \<open>vp\<close> is as before, nothing happened but tool runs and warnings,
  and a tool that ended with a non-zero status is the last thing that happened, thrown
  as \<open>CommandFailed\<close>.
\<close>

fun spawns_agree :: "'a result \<Rightarrow> event list \<Rightarrow> bool" where
  "spawns_agree (Throw (CommandFailed c m)) evs =
     (evs \<noteq> [] \<and> (\<exists>a st. last evs = Spawn c a st \<and> st \<noteq> 0) \<and>
      \<not> list_ex failed_spawn (butlast evs))"
| "spawns_agree _ evs = (\<not> list_ex failed_spawn evs)"

definition tame :: "path \<Rightarrow> world \<Rightarrow> 'a result \<times> world \<Rightarrow> bool" where
  "tame vp w rw =
     (case rw of (r, w') \<Rightarrow>
        files w' vp = files w vp \<and>
        (\<exists>evs. trace w' = trace w @ evs \<and> list_all loop_event evs \<and> spawns_agree r evs))"

subsection \<open>A small site\<close>

text \<open>
  A project at \<open>/site\<close> with a PNG, a JPEG, a file that cannot be read and a directory,
  the metadata documents that refer to them, and hosts that differ in the tools they
  offer and in what their disk does. The JSON functions of these hosts are the
  restriction of \<open>JSON.parse\<close> and \<open>JSON.stringify\<close> to the documents that occur.
\<close>

definition ascii :: "string \<Rightarrow> byte list" where
  "ascii s = map (\<lambda>c. of_nat (of_char c)) s"

fun text_lines :: "string list \<Rightarrow> byte list" where
  "text_lines [] = []"
| "text_lines [l] = ascii l"
| "text_lines (l # m # ls) = ascii l @ [0x0a] @ text_lines (m # ls)"

definition videos_json :: path where
  "videos_json = ''/site/src/_data/videos.json''"

definition cat_png :: path where
  "cat_png = ''/site/src/assets/images/cat.png''"

definition cat_jpg :: path where
  "cat_jpg = ''/site/src/assets/images/cat.jpg''"

definition cat_webp :: path where
  "cat_webp = ''/site/src/assets/images/cat.webp''"

definition dog_jpg :: path where
  "dog_jpg = ''/site/src/assets/images/dog.jpg''"


definition locked_png :: path where
  "locked_png = ''/site/src/assets/images/locked.png''"

definition album :: path where
  "album = ''/site/src/assets/images/album''"

definition jpeg_bytes :: "byte list" where
  "jpeg_bytes = [0xff, 0xd8, 0xff, 0xe0, 0x00, 0x10]"

definition webp_bytes :: "byte list" where
  "webp_bytes = ascii ''RIFF'' @ [0x1a, 0, 0, 0] @ ascii ''WEBP''"

definition cat_entry :: entry where
  "cat_entry = \<lparr>image = JStr ''cat.png'', imageWebp = JUndefined,
                  others = [(''title'', JStr ''Cat'')]\<rparr>"

definition cat_entry2 :: entry where
  "cat_entry2 = \<lparr>image = JStr ''/assets/images/cat.jpg'',
                   imageWebp = JStr ''/assets/images/cat.webp'',
                   others = [(''title'', JStr ''Cat'')]\<rparr>"

definition dog_entry :: entry where
  "dog_entry = \<lparr>image = JStr ''dog.jpg'', imageWebp = JUndefined,
                  others = [(''title'', JStr ''Dog'')]\<rparr>"

definition dog_entry2 :: entry where
  "dog_entry2 = \<lparr>image = JStr ''/assets/images/dog.jpg'',
                   imageWebp = JStr ''/assets/images/dog.webp'',
                   others = [(''title'', JStr ''Dog'')]\<rparr>"

definition locked_entry :: entry where
  "locked_entry = \<lparr>image = JStr ''locked.png'', imageWebp = JUndefined,
                     others = [(''title'', JStr ''Locked'')]\<rparr>"

definition album_entry :: entry where
  "album_entry = \<lparr>image = JStr ''album'', imageWebp = JUndefined,
                    others = [(''title'', JStr ''Album'')]\<rparr>"

definition ghost_entry :: entry where
  "ghost_entry = \<lparr>image = JStr ''ghost.png'', imageWebp = JUndefined,
                    others = [(''title'', JStr ''Ghost'')]\<rparr>"

definition cat_doc :: "byte list" where
  \<open>cat_doc = ascii ''[{"title": "Cat", "image": "cat.png"}]''\<close>

definition cat_doc2 :: "byte list" where
  \<open>cat_doc2 = text_lines
     [''['',
      ''  {'',
      ''    "title": "Cat",'',
      ''    "image": "/assets/images/cat.jpg",'',
      ''    "imageWebp": "/assets/images/cat.webp"'',
      ''  }'',
      '']'']\<close>

definition dog_doc :: "byte list" where
  \<open>dog_doc = ascii ''[{"title": "Dog", "image": "dog.jpg"}]''\<close>

definition dog_doc2 :: "byte list" where
  \<open>dog_doc2 = text_lines
     [''['',
      ''  {'',
      ''    "title": "Dog",'',
      ''    "image": "/assets/images/dog.jpg",'',
      ''    "imageWebp": "/assets/images/dog.webp"'',
      ''  }'',
      '']'']\<close>

definition locked_doc :: "byte list" where
  \<open>locked_doc = ascii
     ''[{"title": "Locked", "image": "locked.png"}, {"title": "Dog", "image": "dog.jpg"}]''\<close>

definition album_doc :: "byte list" where
  \<open>album_doc = ascii
     ''[{"title": "Album", "image": "album"}, {"title": "Dog", "image": "dog.jpg"}]''\<close>

definition ghost_doc :: "byte list" where
  \<open>ghost_doc = ascii
     ''[{"title": "Ghost", "image": "ghost.png"}, {"title": "Dog", "image": "dog.jpg"}]''\<close>

definition ghost_doc2 :: "byte list" where
  \<open>ghost_doc2 = text_lines
     [''['',
      ''  {'',
      ''    "title": "Ghost",'',
      ''    "image": "ghost.png"'',
      ''  },'',
      ''  {'',
      ''    "title": "Dog",'',
      ''    "image": "/assets/images/dog.jpg",'',
      ''    "imageWebp": "/assets/images/dog.webp"'',
      ''  }'',
      '']'']\<close>

definition site_parse :: "byte list \<Rightarrow> document option" where
  "site_parse t =
     (if t = cat_doc then Some (Items [Obj cat_entry])
      else if t = cat_doc2 @ [0x0a] then Some (Items [Obj cat_entry2])
      else if t = dog_doc then Some (Items [Obj dog_entry])
      else if t = dog_doc2 @ [0x0a] then Some (Items [Obj dog_entry2])
      else if t = locked_doc then Some (Items [Obj locked_entry, Obj dog_entry])
      else if t = album_doc then Some (Items [Obj album_entry, Obj dog_entry])
      else if t = ghost_doc then Some (Items [Obj ghost_entry, Obj dog_entry])
      else if t = ghost_doc2 @ [0x0a] then Some (Items [Obj ghost_entry, Obj dog_entry2])
      else None)"

definition site_stringify :: "item list \<Rightarrow> byte list" where
  "site_stringify d =
     (if d = [Obj cat_entry2] then cat_doc2
      else if d = [Obj dog_entry2] then dog_doc2
      else if d = [Obj ghost_entry, Obj dog_entry2] then ghost_doc2
      else [])"

text \<open>
  Tools that succeed, a tool that fails, and a tool that can write WebP files only.
\<close>

definition site_tool :: "string \<Rightarrow> string list \<Rightarrow> (path \<rightharpoonup> fsfile) \<Rightarrow> tool_result" where
  "site_tool command args fs =
     \<lparr>status = 0, stderr = Some [],
      written = Some (if command = ''sips'' \<or> ''3'' \<in> set args then jpeg_bytes else webp_bytes),
      elapsed = 5\<rparr>"

definition broken_tool :: "string \<Rightarrow> string list \<Rightarrow> (path \<rightharpoonup> fsfile) \<Rightarrow> tool_result" where
  "broken_tool command args fs =
     \<lparr>status = 1, stderr = Some (utf16 ''boom'' @ [0x0A]), written = None, elapsed = 1\<rparr>"

definition webp_only_tool :: "string \<Rightarrow> string list \<Rightarrow> (path \<rightharpoonup> fsfile) \<Rightarrow> tool_result" where
  "webp_only_tool command args fs =
     (if command = ''sips'' \<or> ''3'' \<in> set args then broken_tool command args fs
      else site_tool command args fs)"

definition ffmpeg_host :: env where
  "ffmpeg_host =
     \<lparr>projectRoot = ''/site'', on_PATH = (\<lambda>c. c = ''ffmpeg''),
      JSON_parse = site_parse, JSON_stringify = site_stringify, tool = site_tool,
      disk = (\<lambda>p t fs. Written)\<rparr>"

definition sips_host :: env where
  "sips_host = ffmpeg_host\<lparr>on_PATH := (\<lambda>c. c = ''sips'' \<or> c = ''cwebp'')\<rparr>"

definition bare_host :: env where
  "bare_host = ffmpeg_host\<lparr>on_PATH := (\<lambda>c. False)\<rparr>"

definition broken_host :: env where
  "broken_host = ffmpeg_host\<lparr>tool := broken_tool\<rparr>"

definition webp_only_host :: env where
  "webp_only_host = ffmpeg_host\<lparr>tool := webp_only_tool\<rparr>"

definition full_disk_host :: env where
  "full_disk_host = ffmpeg_host\<lparr>disk := (\<lambda>p t fs. Torn (ENOSPC p) (take 2 t))\<rparr>"

definition site_world :: "byte list \<Rightarrow> world" where
  "site_world doc =
     \<lparr>files = [videos_json \<mapsto> \<lparr>content = doc, mtimeMs = 50, readable = True, directory = False\<rparr>,
               cat_png \<mapsto> \<lparr>content = png_signature @ [0, 0, 0, 0x0d], mtimeMs = 100,
                           readable = True, directory = False\<rparr>,
               dog_jpg \<mapsto> \<lparr>content = jpeg_bytes, mtimeMs = 100, readable = True,
                           directory = False\<rparr>,
               locked_png \<mapsto> \<lparr>content = png_signature, mtimeMs = 100, readable = False,
                              directory = False\<rparr>,
               album \<mapsto> \<lparr>content = [], mtimeMs = 100, readable = True, directory = True\<rparr>],
      clock = 1000, trace = []\<rparr>"

text \<open>
  The site after an earlier conversion of the PNG and a later edit of it: the WebP file
  is older than the PNG, the JPEG file newer.
\<close>

definition edited_world :: world where
  "edited_world =
     (site_world cat_doc)\<lparr>files := (files (site_world cat_doc))
        (cat_webp \<mapsto> \<lparr>content = webp_bytes, mtimeMs = 90, readable = True, directory = False\<rparr>,
         cat_jpg \<mapsto> \<lparr>content = jpeg_bytes, mtimeMs = 120, readable = True, directory = False\<rparr>)\<rparr>"

definition empty_world :: world where
  "empty_world = \<lparr>files = Map.empty, clock = 1000, trace = []\<rparr>"

subsection \<open>Lemmas on paths\<close>

lemma splitSep_ne [simp]: "splitSep s \<noteq> []"
  by (induction s) (auto split: list.splits)

lemma joinSep_Cons: "xs \<noteq> [] \<Longrightarrow> joinSep (x # xs) = x @ CHR ''/'' # joinSep xs"
  by (cases xs) auto

lemma joinSep_splitSep: "joinSep (splitSep s) = s"
proof (induction s)
  case Nil show ?case by simp
next
  case (Cons c cs)
  show ?case
  proof (cases "c = CHR ''/''")
    case True
    then show ?thesis using Cons by (simp add: joinSep_Cons)
  next
    case False
    obtain x xs where sp: "splitSep cs = x # xs" by (cases "splitSep cs") auto
    have "joinSep ((c # x) # xs) = c # joinSep (x # xs)" by (cases xs) auto
    then show ?thesis using False Cons sp by simp
  qed
qed

lemma splitSep_nosep: "CHR ''/'' \<notin> set s \<Longrightarrow> splitSep s = [s]"
  by (induction s) auto

lemma splitSep_app_sep: "splitSep (a @ CHR ''/'' # b) = splitSep a @ splitSep b"
proof (induction a)
  case Nil
  have "splitSep (CHR ''/'' # b) = [] # splitSep b" by simp
  then show ?case by simp
next
  case (Cons c cs)
  show ?case
  proof (cases "c = CHR ''/''")
    case True then show ?thesis using Cons by simp
  next
    case False
    obtain x xs where sp: "splitSep cs = x # xs" by (cases "splitSep cs") auto
    then show ?thesis using False Cons by simp
  qed
qed

lemma splitSep_app_nosep:
  "CHR ''/'' \<notin> set y \<Longrightarrow> splitSep (a @ y) = butlast (splitSep a) @ [last (splitSep a) @ y]"
proof (induction a)
  case Nil
  then show ?case by (simp add: splitSep_nosep)
next
  case (Cons c cs)
  obtain x xs where sp: "splitSep cs = x # xs" by (cases "splitSep cs") auto
  obtain x' xs' where sp': "splitSep (cs @ y) = x' # xs'" by (cases "splitSep (cs @ y)") auto
  show ?case
  proof (cases "c = CHR ''/''")
    case True then show ?thesis using Cons by simp
  next
    case False
    then show ?thesis using Cons sp sp' by (cases xs) auto
  qed
qed

lemma norm_step_proper: "proper s \<Longrightarrow> norm_step a res s = res @ [s]"
  by (simp add: norm_step_def proper_def)

lemma foldl_norm_proper:
  "\<forall>s \<in> set segs. proper s \<Longrightarrow> foldl (norm_step a) acc segs = acc @ segs"
  by (induction segs arbitrary: acc) (auto simp: norm_step_proper)

lemma norm_step_empty [simp]: "norm_step a res [] = res"
  by (simp add: norm_step_def)

lemma splitSep_joinSep:
  "segs \<noteq> [] \<Longrightarrow> \<forall>s \<in> set segs. CHR ''/'' \<notin> set s \<Longrightarrow> splitSep (joinSep segs) = segs"
proof (induction segs rule: joinSep.induct)
  case 1 then show ?case by simp
next
  case (2 x) then show ?case by (simp add: splitSep_nosep)
next
  case (3 x y ys)
  have "splitSep (x @ CHR ''/'' # joinSep (y # ys)) = splitSep x @ splitSep (joinSep (y # ys))"
    by (rule splitSep_app_sep)
  then show ?case using 3 by (simp add: splitSep_nosep)
qed

lemma foldl_norm_join:
  assumes "\<forall>s \<in> set segs. proper s"
  shows "foldl (norm_step a) acc (splitSep (joinSep segs)) = acc @ segs"
proof (cases "segs = []")
  case True then show ?thesis by simp
next
  case False
  have "\<forall>s \<in> set segs. CHR ''/'' \<notin> set s" using assms by (auto simp: proper_def)
  then have "splitSep (joinSep segs) = segs" using False by (rule splitSep_joinSep[rotated])
  then show ?thesis using assms by (simp add: foldl_norm_proper)
qed

lemma common_prefix_app: "common_prefix xs (xs @ ys) = xs"
  by (induction xs) auto

lemma joinSep_eq_Nil: "\<forall>s \<in> set segs. s \<noteq> [] \<Longrightarrow> joinSep segs = [] \<longleftrightarrow> segs = []"
  by (induction segs rule: joinSep.induct) auto

lemma last_joinSep: "x \<noteq> [] \<Longrightarrow> last (joinSep (xs @ [x])) = last x"
  by (induction xs rule: joinSep.induct) (auto simp: joinSep_Cons)

lemma joinSep_snoc_ne: "x \<noteq> [] \<Longrightarrow> joinSep (xs @ [x]) \<noteq> []"
  by (induction xs rule: joinSep.induct) (auto simp: joinSep_Cons)

lemma proper_src [simp]: "proper ''src''" by (simp add: proper_def)

lemma normalizeSegs_abs:
  assumes "\<forall>s \<in> set segs. proper s"
  shows "normalizeSegs (CHR ''/'' # joinSep segs) a = segs"
proof -
  have "splitSep (CHR ''/'' # joinSep segs) = [] # splitSep (joinSep segs)" by simp
  then show ?thesis using foldl_norm_join[OF assms, of a "[]"]
    by (simp add: normalizeSegs_def)
qed

lemma joinSep_app:
  "xs \<noteq> [] \<Longrightarrow> ys \<noteq> [] \<Longrightarrow> joinSep (xs @ ys) = joinSep xs @ CHR ''/'' # joinSep ys"
  by (induction xs rule: joinSep.induct) (auto simp: joinSep_Cons)

lemma joinSep_proper:
  assumes "segs \<noteq> []" "\<forall>s \<in> set segs. proper s"
  shows "joinSep segs \<noteq> []" and "last (joinSep segs) \<noteq> CHR ''/''"
proof -
  obtain xs x where sx: "segs = xs @ [x]" using assms(1) by (metis rev_exhaust)
  have "proper x" using assms(2) sx by simp
  then have x: "x \<noteq> []" "CHR ''/'' \<notin> set x" by (auto simp: proper_def)
  show "joinSep segs \<noteq> []" using sx x(1) by (simp add: joinSep_snoc_ne)
  have "last (joinSep segs) = last x" using sx x(1) by (simp add: last_joinSep)
  moreover have "last x \<in> set x" using x(1) by simp
  ultimately show "last (joinSep segs) \<noteq> CHR ''/''" using x(2) by metis
qed

lemma normalize_abs:
  assumes "\<forall>s \<in> set segs. proper s" "segs \<noteq> []"
  shows "normalize (CHR ''/'' # joinSep segs) = CHR ''/'' # joinSep segs"
  using joinSep_proper[OF assms(2,1)] normalizeSegs_abs[OF assms(1)]
  by (simp add: normalize_def isAbsolute_def normalizeString_def Let_def)

lemma abs_double: 
  assumes "\<forall>s \<in> set segs. proper s"
  shows "normalizeSegs (CHR ''/'' # CHR ''/'' # joinSep segs) a = segs"
proof -
  have "splitSep (CHR ''/'' # CHR ''/'' # joinSep segs) = [] # [] # splitSep (joinSep segs)" by simp
  then show ?thesis using foldl_norm_join[OF assms, of a "[]"]
    by (simp add: normalizeSegs_def)
qed

lemma join_root_src:
  assumes "projectRoot e = CHR ''/'' # joinSep rs" "\<forall>s \<in> set rs. proper s"
  shows "join [projectRoot e, ''src''] = CHR ''/'' # joinSep (rs @ [''src''])"
proof (cases "rs = []")
  case True
  have "normalizeSegs ''//src'' False = [''src'']" using abs_double[of "[''src'']" False] by simp
  then show ?thesis using True assms
    by (simp add: join_def normalize_def isAbsolute_def normalizeString_def)
next
  case False
  have "joinSep [CHR ''/'' # joinSep rs, ''src''] = CHR ''/'' # joinSep (rs @ [''src''])"
    using False by (simp add: joinSep_app)
  moreover have "normalize (CHR ''/'' # joinSep (rs @ [''src''])) = CHR ''/'' # joinSep (rs @ [''src''])"
    by (rule normalize_abs) (use assms in auto)
  ultimately show ?thesis using assms by (simp add: join_def)
qed

lemma join_root_src_rel:
  assumes "projectRoot e = CHR ''/'' # joinSep rs" "\<forall>s \<in> set rs. proper s"
    "\<forall>s \<in> set ts. proper s" "ts \<noteq> []"
  shows "join [projectRoot e, ''src'', joinSep ts] = CHR ''/'' # joinSep (rs @ ''src'' # ts)"
proof -
  have tne: "joinSep ts \<noteq> []" using assms joinSep_eq_Nil[of ts] by (auto simp: proper_def)
  have all: "\<forall>s \<in> set (rs @ ''src'' # ts). proper s" using assms by auto
  have n: "normalize (CHR ''/'' # joinSep (rs @ ''src'' # ts)) = CHR ''/'' # joinSep (rs @ ''src'' # ts)"
    by (rule normalize_abs) (use all in auto)
  have st: "joinSep (''src'' # ts) = ''src'' @ CHR ''/'' # joinSep ts" using assms(4) by (simp add: joinSep_Cons)
  show ?thesis
  proof (cases "rs = []")
    case True
    have j: "joinSep [''/'', ''src'', joinSep ts] = CHR ''/'' # CHR ''/'' # joinSep (''src'' # ts)"
      using st by simp
    have l: "last (joinSep (''src'' # ts)) \<noteq> CHR ''/''" and ne: "joinSep (''src'' # ts) \<noteq> []"
      using joinSep_proper[of "''src'' # ts"] all by simp_all
    have "normalize (CHR ''/'' # CHR ''/'' # joinSep (''src'' # ts)) = CHR ''/'' # joinSep (''src'' # ts)"
      using abs_double[of "''src'' # ts" False] all True l ne
      by (simp add: normalize_def isAbsolute_def normalizeString_def Let_def)
    then show ?thesis using True assms(1) tne j by (simp add: join_def)
  next
    case False
    have "joinSep [CHR ''/'' # joinSep rs, ''src'', joinSep ts] = CHR ''/'' # joinSep (rs @ ''src'' # ts)"
      using False st by (simp add: joinSep_app)
    then show ?thesis using n assms(1) tne by (simp add: join_def)
  qed
qed

lemma relative_under:
  assumes "\<forall>s \<in> set xs. proper s" "\<forall>s \<in> set ts. proper s" "ts \<noteq> []" "xs \<noteq> []"
  shows "relative cwd (CHR ''/'' # joinSep xs) (CHR ''/'' # joinSep (xs @ ts)) = joinSep ts"
proof -
  have all: "\<forall>s \<in> set (xs @ ts). proper s" using assms by auto
  have ne: "CHR ''/'' # joinSep xs \<noteq> CHR ''/'' # joinSep (xs @ ts)"
  proof
    assume "CHR ''/'' # joinSep xs = CHR ''/'' # joinSep (xs @ ts)"
    then have "normalizeSegs (CHR ''/'' # joinSep xs) False = normalizeSegs (CHR ''/'' # joinSep (xs @ ts)) False"
      by simp
    then have "xs = xs @ ts" using normalizeSegs_abs[OF assms(1)] normalizeSegs_abs[OF all] by simp
    then show False using assms(3) by simp
  qed
  show ?thesis using ne normalizeSegs_abs[OF assms(1)] normalizeSegs_abs[OF all]
    by (simp add: relative_def resolveSegs_def isAbsolute_def common_prefix_app Let_def)
qed

lemma toPublicPath_under:
  assumes "projectRoot e = CHR ''/'' # joinSep rs" "\<forall>s \<in> set rs. proper s"
    "\<forall>s \<in> set ts. proper s" "ts \<noteq> []"
  shows "toPublicPath e (CHR ''/'' # joinSep (rs @ ''src'' # ts)) = CHR ''/'' # joinSep ts"
proof -
  have a: "join [projectRoot e, ''src''] = CHR ''/'' # joinSep (rs @ [''src''])"
    by (rule join_root_src[OF assms(1,2)])
  have r: "relative (projectRoot e) (CHR ''/'' # joinSep (rs @ [''src'']))
             (CHR ''/'' # joinSep ((rs @ [''src'']) @ ts)) = joinSep ts"
    by (rule relative_under) (use assms in auto)
  show ?thesis using a r by (simp add: toPublicPath_def joinSep_splitSep)
qed

lemma resolveInputPath_logical:
  assumes "projectRoot e = CHR ''/'' # joinSep rs" "\<forall>s \<in> set rs. proper s"
    "\<forall>s \<in> set ts. proper s" "ts \<noteq> []"
  shows "resolveInputPath e (CHR ''/'' # joinSep ts) = CHR ''/'' # joinSep (rs @ ''src'' # ts)"
proof -
  have "resolveInputPath e (CHR ''/'' # joinSep ts) = join [projectRoot e, ''src'', joinSep ts]"
    by (simp add: resolveInputPath_def startsWith_def)
  then show ?thesis using join_root_src_rel[OF assms] by simp
qed

lemma last_normalize_suffix:
  assumes "CHR ''/'' \<notin> set y" "3 \<le> length y"
  shows "last (normalize (x @ y)) = last y"
proof -
  define a where "a = (\<not> isAbsolute (x @ y))"
  define l where "l = last (splitSep x) @ y"
  define res where "res = foldl (norm_step a) [] (butlast (splitSep x))"
  have yne: "y \<noteq> []" using assms(2) by auto
  have ll: "3 \<le> length l" using assms(2) by (simp add: l_def)
  then have lne: "l \<noteq> []" "l \<noteq> ''.''" "l \<noteq> ''..''" by auto
  have "splitSep (x @ y) = butlast (splitSep x) @ [l]"
    using assms(1) by (simp add: splitSep_app_nosep l_def)
  then have "normalizeSegs (x @ y) a = norm_step a res l"
    by (simp add: normalizeSegs_def res_def)
  also have "\<dots> = res @ [l]" using lne by (simp add: norm_step_def)
  finally have segs: "normalizeSegs (x @ y) a = res @ [l]" .
  have q: "normalizeString (x @ y) a \<noteq> []" "last (normalizeString (x @ y) a) = last y"
    using segs lne yne by (simp_all add: normalizeString_def joinSep_snoc_ne last_joinSep l_def)
  have "last (x @ y) \<noteq> CHR ''/''" using yne assms(1) by (metis last_appendR last_in_set)
  then show ?thesis using q yne
    by (simp add: normalize_def Let_def a_def[symmetric])
qed

lemma last_join2:
  assumes "3 \<le> length y" "CHR ''/'' \<notin> set y"
  shows "last (join [d, n @ y]) = last y"
proof -
  have yne: "n @ y \<noteq> []" using assms(1) by auto
  show ?thesis
  proof (cases "d = []")
    case True
    then have "join [d, n @ y] = normalize (n @ y)" using yne by (simp add: join_def)
    then show ?thesis using last_normalize_suffix[OF assms(2,1), of n] by simp
  next
    case False
    then have "join [d, n @ y] = normalize ((d @ CHR ''/'' # n) @ y)" using yne by (simp add: join_def)
    then show ?thesis using last_normalize_suffix[OF assms(2,1), of "d @ CHR ''/'' # n"] by simp
  qed
qed

lemma last_videosPath: "last (videosPath e) = CHR ''n''"
proof -
  have l: "last (normalize (x @ ''videos.json'')) = CHR ''n''" for x
    using last_normalize_suffix[of "''videos.json''" x] by simp
  show ?thesis
  proof (cases "projectRoot e = []")
    case True
    then have "videosPath e = normalize (''src/_data/'' @ ''videos.json'')"
      by (simp add: videosPath_def join_def)
    then show ?thesis using l by metis
  next
    case False
    then have "videosPath e = normalize ((projectRoot e @ ''/src/_data/'') @ ''videos.json'')"
      by (simp add: videosPath_def join_def)
    then show ?thesis using l by metis
  qed
qed

lemma webp_ne_videosPath: "join [d, n @ ''.webp''] \<noteq> videosPath e"
proof
  assume "join [d, n @ ''.webp''] = videosPath e"
  then have "last (join [d, n @ ''.webp'']) = last (videosPath e)" by simp
  then show False using last_join2[of "''.webp''" d n] last_videosPath[of e] by simp
qed

lemma jpg_ne_videosPath: "join [d, n @ ''.jpg''] \<noteq> videosPath e"
proof
  assume "join [d, n @ ''.jpg''] = videosPath e"
  then have "last (join [d, n @ ''.jpg'']) = last (videosPath e)" by simp
  then show False using last_join2[of "''.jpg''" d n] last_videosPath[of e] by simp
qed

subsection \<open>The invariant of the loop\<close>

lemma tame_ret: "tame vp w (ret a w)"
  by (simp add: tame_def ret_def)

lemma not_cf_agree: "(\<And>c m. r \<noteq> Throw (CommandFailed c m)) \<Longrightarrow> spawns_agree r evs = (\<not> list_ex failed_spawn evs)"
  by (cases "(r, evs)" rule: spawns_agree.cases) auto

lemma tame_observe: "(\<And>c m. g w \<noteq> Throw (CommandFailed c m)) \<Longrightarrow> tame vp w (observe g w)"
  by (simp add: tame_def observe_def not_cf_agree)

lemma tame_throw: "(\<And>c m. x \<noteq> CommandFailed c m) \<Longrightarrow> tame vp w (throw x w)"
  by (simp add: tame_def throw_def not_cf_agree)

lemma tame_emit: "loop_event ev \<Longrightarrow> \<not> failed_spawn ev \<Longrightarrow> tame vp w (emit ev w)"
  by (simp add: tame_def emit_def)

lemma tame_Throw_cast: "tame vp w (Throw x :: 'a result, w') \<Longrightarrow> tame vp w (Throw x :: 'b result, w')"
  by (cases x) (auto simp: tame_def)

lemma tame_Ok_cast: "tame vp w (Ok a, w') \<Longrightarrow> tame vp w (Ok b, w')"
  by (auto simp: tame_def)

lemma spawns_agree_append:
  assumes "\<not> list_ex failed_spawn evs1" "spawns_agree r evs2"
  shows "spawns_agree r (evs1 @ evs2)"
proof (cases "\<exists>c m. r = Throw (CommandFailed c m)")
  case True
  then obtain c m where r: "r = Throw (CommandFailed c m)" by blast
  from assms(2) r have ne: "evs2 \<noteq> []" and l: "\<exists>a st. last evs2 = Spawn c a st \<and> st \<noteq> 0"
    and b: "\<not> list_ex failed_spawn (butlast evs2)" by simp_all
  have "butlast (evs1 @ evs2) = evs1 @ butlast evs2" using ne by (simp add: butlast_append)
  then have "\<not> list_ex failed_spawn (butlast (evs1 @ evs2))" using assms(1) b by simp
  moreover have "last (evs1 @ evs2) = last evs2" using ne by simp
  ultimately show ?thesis using r ne l by simp
next
  case False
  then have "\<And>c m. r \<noteq> Throw (CommandFailed c m)" by blast
  then have "spawns_agree r (evs1 @ evs2) = (\<not> list_ex failed_spawn (evs1 @ evs2))"
    and "spawns_agree r evs2 = (\<not> list_ex failed_spawn evs2)"
    by (rule not_cf_agree)+
  then show ?thesis using assms by simp
qed

lemma tame_andThen:
  assumes "tame vp w (m w)" "\<And>a w1. m w = (Ok a, w1) \<Longrightarrow> tame vp w1 (f a w1)"
  shows "tame vp w (andThen m f w)"
proof (cases "m w")
  case (Pair r w1)
  show ?thesis
  proof (cases r)
    case (Throw x)
    then have "andThen m f w = (Throw x, w1)" using Pair by (simp add: andThen_def)
    moreover have "tame vp w (Throw x :: 'a result, w1)" using assms(1) Pair Throw by simp
    ultimately show ?thesis by (simp add: tame_Throw_cast)
  next
    case (Ok a)
    obtain r2 w2 where f: "f a w1 = (r2, w2)" by (cases "f a w1")
    from assms(1) Pair Ok obtain evs1 where
      1: "files w1 vp = files w vp" "trace w1 = trace w @ evs1" "list_all loop_event evs1"
         "\<not> list_ex failed_spawn evs1"
      unfolding tame_def by auto
    from assms(2)[of a w1] Pair Ok f obtain evs2 where
      2: "files w2 vp = files w1 vp" "trace w2 = trace w1 @ evs2" "list_all loop_event evs2"
         "spawns_agree r2 evs2"
      unfolding tame_def by auto
    have sa: "spawns_agree r2 (evs1 @ evs2)" by (rule spawns_agree_append[OF 1(4) 2(4)])
    have tr: "trace w2 = trace w @ (evs1 @ evs2)" using 1(2) 2(2) by simp
    have nw: "list_all loop_event (evs1 @ evs2)" using 1(3) 2(3) by simp
    have "tame vp w (r2, w2)" unfolding tame_def using 1(1) 2(1) sa tr nw by auto
    moreover have "andThen m f w = (r2, w2)" using Pair Ok f by (simp add: andThen_def)
    ultimately show ?thesis by simp
  qed
qed

lemma tame_runCommand:
  assumes "args \<noteq> []" "last args \<noteq> vp"
  shows "tame vp w (runCommand e c args w)"
  using assms
  by (auto simp: tame_def runCommand_def spawnSync_def Let_def split: option.splits)

lemma shouldGenerate_not_cf: "shouldGenerate w s out \<noteq> Throw (CommandFailed c m)"
  by (simp add: shouldGenerate_def split: option.splits)

lemma detect_not_cf: "detectImageType w p \<noteq> Throw (CommandFailed c m)"
  by (auto simp: detectImageType_def isPng_def isJpeg_def readSignature_def split: option.splits result.splits bool.splits)

lemma tame_convertWithFfmpeg:
  "jpg \<noteq> vp \<Longrightarrow> webp \<noteq> vp \<Longrightarrow> tame vp w (convertWithFfmpeg e s jpg webp w)"
  unfolding convertWithFfmpeg_def
  by (intro tame_andThen tame_observe shouldGenerate_not_cf)
     (auto intro!: tame_runCommand tame_ret)

lemma tame_convertWithSipsAndCwebp:
  "jpg \<noteq> vp \<Longrightarrow> webp \<noteq> vp \<Longrightarrow> tame vp w (convertWithSipsAndCwebp e s jpg webp w)"
  unfolding convertWithSipsAndCwebp_def
  by (intro tame_andThen tame_observe shouldGenerate_not_cf)
     (auto intro!: tame_runCommand tame_ret)

lemma tame_convertJpegToWebp:
  "webp \<noteq> vp \<Longrightarrow> tame vp w (convertJpegToWebp e c s webp w)"
  unfolding convertJpegToWebp_def
  by (intro tame_andThen tame_observe shouldGenerate_not_cf)
     (auto intro!: tame_runCommand tame_ret)

lemma tame_if:
  "(c \<Longrightarrow> tame vp w (f w)) \<Longrightarrow> (\<not> c \<Longrightarrow> tame vp w (g w)) \<Longrightarrow> tame vp w ((if c then f else g) w)"
  by simp

lemma process_video_JStr:
  "image v = JStr s \<Longrightarrow> s \<noteq> [] \<Longrightarrow>
   process_video e c v =
     andThen (observe (\<lambda>w. Ok (fileExists w (resolveInputPath e s)))) (\<lambda>found.
       if \<not> found
       then andThen (emit (Warn s)) (\<lambda>_. ret (v, False, False))
       else
         andThen (observe (\<lambda>w. detectImageType w (resolveInputPath e s))) (\<lambda>imageType.
           if imageType = Other then ret (v, False, False)
           else
             andThen
               (if imageType = Png
                then (if c = Ffmpeg
                      then convertWithFfmpeg e (resolveInputPath e s)
                             (join [dir (parse (resolveInputPath e s)), name (parse (resolveInputPath e s)) @ ''.jpg''])
                             (join [dir (parse (resolveInputPath e s)), name (parse (resolveInputPath e s)) @ ''.webp''])
                      else convertWithSipsAndCwebp e (resolveInputPath e s)
                             (join [dir (parse (resolveInputPath e s)), name (parse (resolveInputPath e s)) @ ''.jpg''])
                             (join [dir (parse (resolveInputPath e s)), name (parse (resolveInputPath e s)) @ ''.webp'']))
                else convertJpegToWebp e c (resolveInputPath e s)
                       (join [dir (parse (resolveInputPath e s)), name (parse (resolveInputPath e s)) @ ''.webp''])) (\<lambda>_.
               if image v \<noteq> JStr (toPublicPath e (if imageType = Png
                      then join [dir (parse (resolveInputPath e s)), name (parse (resolveInputPath e s)) @ ''.jpg'']
                      else resolveInputPath e s)) \<or>
                  imageWebp v \<noteq> JStr (toPublicPath e
                      (join [dir (parse (resolveInputPath e s)), name (parse (resolveInputPath e s)) @ ''.webp'']))
               then ret (v\<lparr>image := JStr (toPublicPath e (if imageType = Png
                      then join [dir (parse (resolveInputPath e s)), name (parse (resolveInputPath e s)) @ ''.jpg'']
                      else resolveInputPath e s)),
                    imageWebp := JStr (toPublicPath e
                      (join [dir (parse (resolveInputPath e s)), name (parse (resolveInputPath e s)) @ ''.webp'']))\<rparr>,
                         True, True)
               else ret (v, True, False))))"
  by (simp add: process_video_def Let_def split del: if_split cong: if_cong)

lemma process_video_falsy: "\<not> truthy (image v) \<Longrightarrow> process_video e c v = ret (v, False, False)"
  by (simp add: process_video_def)

lemma process_video_TypeError:
  "truthy (image v) \<Longrightarrow> (\<And>s. image v \<noteq> JStr s) \<Longrightarrow> process_video e c v = throw TypeError"
  by (cases "image v") (auto simp: process_video_def)

lemma tame_process_video: "tame (videosPath e) w (process_video e c v w)"
proof (cases "truthy (image v)")
  case False
  then show ?thesis by (simp add: process_video_falsy tame_ret)
next
  case True
  show ?thesis
  proof (cases "\<exists>s. image v = JStr s")
    case False
    then show ?thesis using True by (simp add: process_video_TypeError tame_throw)
  next
    case True
    then obtain s where s: "image v = JStr s" by blast
    then have ne: "s \<noteq> []" using \<open>truthy (image v)\<close> by simp
    show ?thesis
      unfolding process_video_JStr[OF s ne]
      by (intro tame_andThen tame_if tame_observe tame_emit tame_ret
            tame_convertWithFfmpeg tame_convertWithSipsAndCwebp tame_convertJpegToWebp
            webp_ne_videosPath jpg_ne_videosPath detect_not_cf)
         simp_all
  qed
qed

lemma loop_body_Obj:
  "loop_body e c (Obj v) w =
     (case process_video e c v w of
        (Throw x, w') \<Rightarrow> (Throw x, w')
      | (Ok (v', counted, upd), w') \<Rightarrow> (Ok (Obj v', counted, upd), w'))"
  by (simp add: loop_body_def andThen_def ret_def split: prod.splits result.splits)

lemma snd_loop_body_Obj: "snd (loop_body e c (Obj v) w) = snd (process_video e c v w)"
  by (simp add: loop_body_Obj split: prod.splits result.splits)

lemma tame_loop_body: "tame (videosPath e) w (loop_body e c it w)"
proof (cases it)
  case (Obj video)
  have "tame (videosPath e) w
          (andThen (process_video e c video) (\<lambda>(video', counted, upd). ret (Obj video', counted, upd)) w)"
    by (rule tame_andThen) (auto intro: tame_process_video tame_ret)
  then show ?thesis using Obj by (simp add: loop_body_def)
next
  case NullItem
  then show ?thesis by (simp add: loop_body_def tame_throw)
next
  case (Atom x)
  then show ?thesis by (simp add: loop_body_def tame_ret)
qed

lemma tame_trans:
  assumes "tame vp w (Ok a, w1)" "tame vp w1 (r, w2)"
  shows "tame vp w (r, w2)"
  using tame_andThen[of vp w "\<lambda>_. (Ok a, w1)" "\<lambda>_ _. (r, w2)"] assms
  by (simp add: andThen_def)

lemma tame_for_videos: "tame (videosPath e) w (for_videos e c vs w)"
proof (induction vs arbitrary: w)
  case Nil
  show ?case by (simp add: tame_def)
next
  case (Cons v vs)
  obtain r w1 where p: "loop_body e c v w = (r, w1)" by (cases "loop_body e c v w")
  have t1: "tame (videosPath e) w (r, w1)" using tame_loop_body[of e w c v] p by simp
  show ?case
  proof (cases r)
    case (Throw x)
    then show ?thesis using p t1 by (auto intro: tame_Throw_cast)
  next
    case (Ok a)
    obtain r2 w2 where f: "for_videos e c vs w1 = (r2, w2)" by (cases "for_videos e c vs w1")
    have t2: "tame (videosPath e) w1 (r2, w2)" using Cons[of w1] f by simp
    have t: "tame (videosPath e) w (r2, w2)" by (rule tame_trans[OF t1[unfolded Ok] t2])
    show ?thesis
    proof (cases r2)
      case (Throw x)
      then show ?thesis using p Ok f t by (auto split: prod.splits intro: tame_Throw_cast)
    next
      case (Ok b)
      then show ?thesis using p \<open>r = Ok a\<close> f t by (auto split: prod.splits intro: tame_Ok_cast)
    qed
  qed
qed

subsection \<open>Staleness and format detection\<close>

lemma take_pad:
  assumes "length s = n" "0 \<notin> set s"
  shows "take n (c @ replicate n (0::byte)) = s \<longleftrightarrow> take n c = s"
proof (cases "n \<le> length c")
  case True then show ?thesis by simp
next
  case False
  then have lt: "length c < n" by simp
  have pad: "take n (c @ replicate n 0) = c @ replicate (n - length c) 0"
    using lt by simp
  have "(0::byte) \<in> set (c @ replicate (n - length c) 0)" using lt by simp
  then have "take n (c @ replicate n 0) \<noteq> s" using assms(2) pad by metis
  moreover have "length (take n c) < n" using lt by simp
  then have "take n c \<noteq> s" using assms(1) by auto
  ultimately show ?thesis by simp
qed

lemma three_bytes:
  "length s = 3 \<Longrightarrow> (s ! 0 = a \<and> s ! 1 = b \<and> s ! 2 = c) = (s = [a, b, c])"
  by (cases s; simp; cases "tl s"; simp; cases "tl (tl s)"; auto)

lemma isPng_iff:
  "files w p = Some f \<Longrightarrow> readable f \<Longrightarrow> \<not> directory f \<Longrightarrow>
   isPng w p = Ok (take 8 (content f) = png_signature)"
  using take_pad[of png_signature 8 "content f"]
  by (simp add: isPng_def readSignature_def png_signature_def)

lemma isJpeg_iff:
  "files w p = Some f \<Longrightarrow> readable f \<Longrightarrow> \<not> directory f \<Longrightarrow>
   isJpeg w p = Ok (take 3 (content f) = [0xff, 0xd8, 0xff])"
  using take_pad[of "[0xff, 0xd8, 0xff]" 3 "content f"]
    three_bytes[of "take 3 (content f @ replicate 3 0)" "0xff" "0xd8" "0xff"]
  by (simp add: isJpeg_def readSignature_def)



lemma detect_directory:
  "files w p = Some f \<Longrightarrow> readable f \<Longrightarrow> directory f \<Longrightarrow>
   detectImageType w p = Throw (EISDIR p)"
  by (simp add: detectImageType_def isPng_def readSignature_def)

lemma detect_readable:
  "files w p = Some f \<Longrightarrow> readable f \<Longrightarrow> \<not> directory f \<Longrightarrow>
   detectImageType w p =
     Ok (if take 8 (content f) = png_signature then Png
         else if take 3 (content f) = [0xff, 0xd8, 0xff] then Jpeg else Other)"
  by (simp add: detectImageType_def isPng_iff isJpeg_iff)

lemma png_not_jpeg: "take 8 c = png_signature \<Longrightarrow> take 3 c \<noteq> [0xff, 0xd8, 0xff]"
proof
  assume a: "take 8 c = png_signature" and b: "take 3 c = [0xff, 0xd8, 0xff]"
  have "take 3 (take 8 c) = take 3 c" by simp
  then show False using a b by (simp add: png_signature_def)
qed

text \<open>
  C3. If the derivative path does not exist, \<open>shouldGenerate\<close> is true; if it exists
  and the modification time of the source is at most that of the derivative (equal
  included) it is false; if the source is strictly newer it is true. The answer is a
  function of the two stats alone: worlds that agree on the existence and modification
  times of the two paths give the same answer, and no world is returned.
\<close>

theorem shouldGenerate_staleness:
  "(files w outputPath = None \<longrightarrow> shouldGenerate w sourcePath outputPath = Ok True) \<and>
   (\<forall>s d. files w sourcePath = Some s \<and> files w outputPath = Some d \<and>
          mtimeMs s \<le> mtimeMs d \<longrightarrow> shouldGenerate w sourcePath outputPath = Ok False) \<and>
   (\<forall>s d. files w sourcePath = Some s \<and> files w outputPath = Some d \<and>
          mtimeMs s > mtimeMs d \<longrightarrow> shouldGenerate w sourcePath outputPath = Ok True) \<and>
   (\<forall>w2. map_option mtimeMs (files w2 sourcePath) = map_option mtimeMs (files w sourcePath) \<and>
         map_option mtimeMs (files w2 outputPath) = map_option mtimeMs (files w outputPath) \<longrightarrow>
      shouldGenerate w2 sourcePath outputPath = shouldGenerate w sourcePath outputPath)"
  by (auto simp: shouldGenerate_def split: option.splits)

theorem shouldGenerate_staleness_witness:
  "shouldGenerate (site_world cat_doc) cat_png cat_webp = Ok True \<and>
   shouldGenerate (site_world cat_doc) cat_png dog_jpg = Ok False \<and>
   shouldGenerate (site_world cat_doc) videos_json cat_png = Ok False \<and>
   shouldGenerate (site_world cat_doc) cat_png videos_json = Ok True \<and>
   shouldGenerate (site_world dog_doc) cat_png videos_json =
     shouldGenerate (site_world cat_doc) cat_png videos_json"
proof -
  let ?w = "site_world cat_doc"
  note spec = shouldGenerate_staleness
  have absent: "files ?w cat_webp = None" by code_simp
  have cat: "files ?w cat_png = Some \<lparr>content = png_signature @ [0, 0, 0, 0x0d], mtimeMs = 100, readable = True, directory = False\<rparr>"
    by code_simp
  have dog: "files ?w dog_jpg = Some \<lparr>content = jpeg_bytes, mtimeMs = 100, readable = True, directory = False\<rparr>"
    by code_simp
  have vid: "files ?w videos_json = Some \<lparr>content = cat_doc, mtimeMs = 50, readable = True, directory = False\<rparr>"
    by code_simp
  have 1: "shouldGenerate ?w cat_png cat_webp = Ok True"
    using spec[of ?w cat_webp cat_png] absent by blast
  have 2: "shouldGenerate ?w cat_png dog_jpg = Ok False"
    using spec[of ?w dog_jpg cat_png, THEN conjunct2, THEN conjunct1] cat dog by simp
  have 3: "shouldGenerate ?w videos_json cat_png = Ok False"
    using spec[of ?w cat_png videos_json, THEN conjunct2, THEN conjunct1] cat vid by simp
  have 4: "shouldGenerate ?w cat_png videos_json = Ok True"
    using spec[of ?w videos_json cat_png, THEN conjunct2, THEN conjunct2, THEN conjunct1] cat vid
    by simp
  have s1: "map_option mtimeMs (files (site_world dog_doc) cat_png) = map_option mtimeMs (files ?w cat_png)"
    by code_simp
  have s2: "map_option mtimeMs (files (site_world dog_doc) videos_json) = map_option mtimeMs (files ?w videos_json)"
    by code_simp
  have 5: "shouldGenerate (site_world dog_doc) cat_png videos_json = shouldGenerate ?w cat_png videos_json"
    using spec[of ?w videos_json cat_png, THEN conjunct2, THEN conjunct2, THEN conjunct2] s1 s2
    by blast
  show ?thesis using 1 2 3 4 5 by blast
qed

text \<open>
  C4. What the detector answers on a regular file it can read is decided by the leading
  bytes of the file: PNG when the first eight bytes are the PNG signature, JPEG when the
  first three are \<open>FF D8 FF\<close>, and unrecognised otherwise, which includes every file
  shorter than three bytes. The two signatures exclude each other, so the answer is
  exactly one of the three. (On a directory there are no bytes to read, and the read
  throws.)
\<close>

theorem detectImageType_by_signature:
  assumes "files w p = Some f" and "readable f"
  shows "detectImageType w p =
           (if directory f then Throw (EISDIR p)
            else Ok (if take 8 (content f) = png_signature then Png
                     else if take 3 (content f) = [0xff, 0xd8, 0xff] then Jpeg
                     else Other)) \<and>
         \<not> (take 8 (content f) = png_signature \<and> take 3 (content f) = [0xff, 0xd8, 0xff]) \<and>
         (\<not> directory f \<and> length (content f) < 3 \<longrightarrow> detectImageType w p = Ok Other)"
proof -
  have short: "length (content f) < 3 \<Longrightarrow>
      take 8 (content f) \<noteq> png_signature \<and> take 3 (content f) \<noteq> [0xff, 0xd8, 0xff]"
  proof -
    assume l: "length (content f) < 3"
    then have "length (take 8 (content f)) < 3" "length (take 3 (content f)) < 3" by simp_all
    then show ?thesis by (auto simp: png_signature_def)
  qed
  show ?thesis
  proof (cases "directory f")
    case True
    then show ?thesis
      using detect_directory[OF assms] png_not_jpeg[of "content f"] by auto
  next
    case False
    then show ?thesis
      using detect_readable[OF assms] png_not_jpeg[of "content f"] short by auto
  qed
qed

theorem detectImageType_by_signature_witness:
  "detectImageType (site_world []) cat_png = Ok Png \<and>
   detectImageType (site_world []) dog_jpg = Ok Jpeg \<and>
   detectImageType (site_world []) videos_json = Ok Other \<and>
   detectImageType (site_world cat_doc) videos_json = Ok Other"
proof -
  have cat: "files (site_world []) cat_png =
      Some \<lparr>content = png_signature @ [0, 0, 0, 0x0d], mtimeMs = 100, readable = True, directory = False\<rparr>"
    by code_simp
  have dog: "files (site_world []) dog_jpg =
      Some \<lparr>content = jpeg_bytes, mtimeMs = 100, readable = True, directory = False\<rparr>"
    by code_simp
  have emp: "files (site_world []) videos_json =
      Some \<lparr>content = [], mtimeMs = 50, readable = True, directory = False\<rparr>"
    by code_simp
  have vid: "files (site_world cat_doc) videos_json =
      Some \<lparr>content = cat_doc, mtimeMs = 50, readable = True, directory = False\<rparr>"
    by code_simp
  have 1: "detectImageType (site_world []) cat_png = Ok Png"
    using detectImageType_by_signature[OF cat] by (simp add: png_signature_def)
  have 2: "detectImageType (site_world []) dog_jpg = Ok Jpeg"
    using detectImageType_by_signature[OF dog] by (simp add: png_signature_def jpeg_bytes_def)
  have 3: "detectImageType (site_world []) videos_json = Ok Other"
    using detectImageType_by_signature[OF emp, THEN conjunct2, THEN conjunct2] by simp
  have 4: "detectImageType (site_world cat_doc) videos_json = Ok Other"
    using detectImageType_by_signature[OF vid]
    by (simp add: png_signature_def cat_doc_def ascii_def)
  show ?thesis using 1 2 3 4 by blast
qed

subsection \<open>Logical and file-system paths\<close>

text \<open>
  C8. Take the project root \<open>/r\<^sub>1/\<dots>/r\<^sub>m\<close> (any absolute path in normal form, the
  file-system root included) and a file below the content root, at
  \<open>/r\<^sub>1/\<dots>/r\<^sub>m/src/t\<^sub>1/\<dots>/t\<^sub>n\<close> with proper names \<open>t\<^sub>i\<close>. Its logical form is
  \<open>/t\<^sub>1/\<dots>/t\<^sub>n\<close>, and resolving the logical form gives back the path of the file.
\<close>

theorem path_roundtrip:
  assumes "projectRoot e = CHR ''/'' # joinSep rs" and "\<forall>s \<in> set rs. proper s"
    and "\<forall>s \<in> set ts. proper s" and "ts \<noteq> []"
    and "p = CHR ''/'' # joinSep (rs @ ''src'' # ts)"
  shows "toPublicPath e p = CHR ''/'' # joinSep ts \<and> resolveInputPath e (toPublicPath e p) = p"
proof -
  have pub: "toPublicPath e p = CHR ''/'' # joinSep ts"
    unfolding assms(5) by (rule toPublicPath_under[OF assms(1-4)])
  have "resolveInputPath e (CHR ''/'' # joinSep ts) = p"
    unfolding assms(5) by (rule resolveInputPath_logical[OF assms(1-4)])
  then show ?thesis using pub by simp
qed

theorem path_roundtrip_witness:
  "toPublicPath ffmpeg_host cat_png = ''/assets/images/cat.png'' \<and>
   resolveInputPath ffmpeg_host (toPublicPath ffmpeg_host cat_png) = cat_png"
proof -
  have 1: "projectRoot ffmpeg_host = CHR ''/'' # joinSep [''site'']" by code_simp
  have 2: "\<forall>s \<in> set [''site'']. proper s" by code_simp
  have 3: "\<forall>s \<in> set [''assets'', ''images'', ''cat.png'']. proper s" by code_simp
  have 4: "[''assets'', ''images'', ''cat.png''] \<noteq> []" by simp
  have 5: "cat_png = CHR ''/'' # joinSep ([''site''] @ ''src'' # [''assets'', ''images'', ''cat.png''])"
    by code_simp
  have 6: "CHR ''/'' # joinSep [''assets'', ''images'', ''cat.png''] = ''/assets/images/cat.png''"
    by code_simp
  show ?thesis using path_roundtrip[OF 1 2 3 4 5] unfolding 6 .
qed

subsection \<open>The order of conversions\<close>

lemma new_events_app: "trace w' = trace w @ evs \<Longrightarrow> new_events w w' = evs"
  by (simp add: new_events_def)

lemma new_events_self [simp]: "new_events w w = []"
  by (simp add: new_events_def)

lemma spawnSync_trace:
  "trace (snd (spawnSync e c args w)) = trace w @ [Spawn c args (status (tool e c args (files w)))]"
  by (simp add: spawnSync_def Let_def)

lemma spawnSync_fst: "fst (spawnSync e c args w) = tool e c args (files w)"
  by (simp add: spawnSync_def Let_def)

lemma spawnSync_keeps: "files w p = Some f \<Longrightarrow> p \<noteq> last args \<Longrightarrow> files (snd (spawnSync e c args w)) p = Some f"
  by (simp add: spawnSync_def Let_def split: option.splits)

lemma spawnSync_exists: "files w p \<noteq> None \<Longrightarrow> files (snd (spawnSync e c args w)) p \<noteq> None"
  by (simp add: spawnSync_def Let_def split: option.splits)

lemma runCommand_snd: "snd (runCommand e c args w) = snd (spawnSync e c args w)"
  by (simp add: runCommand_def split: prod.splits)

lemma runCommand_fst_Ok:
  "(\<exists>u. fst (runCommand e c args w) = Ok u) \<longleftrightarrow> status (tool e c args (files w)) = 0"
  by (auto simp: runCommand_def spawnSync_def Let_def split: prod.splits)

lemma runCommand_zero:
  "status (tool e c args (files w)) = 0 \<Longrightarrow>
   runCommand e c args w = (Ok (), snd (spawnSync e c args w))"
  using spawnSync_fst[of e c args w] by (cases "spawnSync e c args w") (simp add: runCommand_def)

lemma runCommand_nonzero:
  "status (tool e c args (files w)) \<noteq> 0 \<Longrightarrow>
   \<exists>m. runCommand e c args w = (Throw (CommandFailed c m), snd (spawnSync e c args w))"
  using spawnSync_fst[of e c args w] by (cases "spawnSync e c args w") (simp add: runCommand_def)

lemma shouldGenerate_Ok:
  "files w s \<noteq> None \<Longrightarrow> shouldGenerate w s out = Ok (shouldGenerate w s out = Ok True)"
  by (auto simp: shouldGenerate_def split: option.splits)

lemma two_steps_world:
  assumes g1: "g1 w = Ok b1"
    and w1: "w1 = (if b1 then snd (spawnSync e c1 A w) else w)"
    and g2: "g2 w1 = Ok b2"
  shows "snd (andThen (observe g1) (\<lambda>s1.
              andThen (if s1 then runCommand e c1 A else ret ()) (\<lambda>_.
              andThen (observe g2) (\<lambda>s2. if s2 then runCommand e c2 B else ret ()))) w) =
         (if (b1 \<longrightarrow> status (tool e c1 A (files w)) = 0) \<and> b2
          then snd (spawnSync e c2 B w1) else w1)"
proof (cases b1)
  case False
  then have "w1 = w" using w1 by simp
  then show ?thesis using False g1 g2
    by (simp add: andThen_def observe_def ret_def runCommand_snd split: prod.splits result.splits)
next
  case True
  then have w1': "w1 = snd (spawnSync e c1 A w)" using w1 by simp
  show ?thesis
  proof (cases "status (tool e c1 A (files w)) = 0")
    case st: True
    then have "runCommand e c1 A w = (Ok (), w1)"
      using w1' by (simp add: runCommand_zero)
    then show ?thesis using True st g1 g2
      by (simp add: andThen_def observe_def ret_def runCommand_snd split: prod.splits result.splits)
  next
    case st: False
    then obtain x where "runCommand e c1 A w = (Throw x, w1)"
      using w1' runCommand_nonzero[of e c1 A w] by auto
    then show ?thesis using True st g1
      by (simp add: andThen_def observe_def)
  qed
qed

lemma two_steps_events:
  assumes g1: "g1 w = Ok b1"
    and w1: "w1 = (if b1 then snd (spawnSync e c1 A w) else w)"
    and g2: "g2 w1 = Ok b2"
  shows "new_events w (snd (andThen (observe g1) (\<lambda>s1.
              andThen (if s1 then runCommand e c1 A else ret ()) (\<lambda>_.
              andThen (observe g2) (\<lambda>s2. if s2 then runCommand e c2 B else ret ()))) w)) =
         (if b1 then [Spawn c1 A (status (tool e c1 A (files w)))] else []) @
         (if (b1 \<longrightarrow> status (tool e c1 A (files w)) = 0) \<and> b2
          then [Spawn c2 B (status (tool e c2 B (files w1)))] else [])"
proof -
  have t1: "trace w1 = trace w @ (if b1 then [Spawn c1 A (status (tool e c1 A (files w)))] else [])"
    using w1 by (simp add: spawnSync_trace)
  have "trace (if (b1 \<longrightarrow> status (tool e c1 A (files w)) = 0) \<and> b2
               then snd (spawnSync e c2 B w1) else w1) =
        trace w @ ((if b1 then [Spawn c1 A (status (tool e c1 A (files w)))] else []) @
         (if (b1 \<longrightarrow> status (tool e c1 A (files w)) = 0) \<and> b2
          then [Spawn c2 B (status (tool e c2 B (files w1)))] else []))"
    using t1 by (simp add: spawnSync_trace)
  then show ?thesis
    unfolding two_steps_world[where ?g1.0 = g1 and ?g2.0 = g2 and w = w and ?w1.0 = w1
        and ?b1.0 = b1 and ?b2.0 = b2 and e = e and ?c1.0 = c1 and ?c2.0 = c2 and A = A and B = B,
        OF assms]
    by (rule new_events_app)
qed

lemma process_video_png_world:
  assumes "image v = JStr s" "s \<noteq> []" "files w (resolveInputPath e s) = Some f" "readable f"
    "\<not> directory f" "take 8 (content f) = png_signature"
  shows "snd (process_video e c v w) =
         snd ((if c = Ffmpeg
               then convertWithFfmpeg e (resolveInputPath e s)
                      (join [dir (parse (resolveInputPath e s)), name (parse (resolveInputPath e s)) @ ''.jpg''])
                      (join [dir (parse (resolveInputPath e s)), name (parse (resolveInputPath e s)) @ ''.webp''])
               else convertWithSipsAndCwebp e (resolveInputPath e s)
                      (join [dir (parse (resolveInputPath e s)), name (parse (resolveInputPath e s)) @ ''.jpg''])
                      (join [dir (parse (resolveInputPath e s)), name (parse (resolveInputPath e s)) @ ''.webp''])) w)"
proof -
  have ex: "fileExists w (resolveInputPath e s)" using assms(3) by (simp add: fileExists_def)
  have dt: "detectImageType w (resolveInputPath e s) = Ok Png"
    using detect_readable[OF assms(3,4,5)] assms(6) by simp
  show ?thesis
    unfolding process_video_JStr[OF assms(1,2)]
    using ex dt
    by (simp add: andThen_def observe_def ret_def split: prod.splits result.splits)
qed


lemma spawnSync_written:
  assumes "written (tool e c args (files w)) = Some b" "args \<noteq> []"
  shows "files (snd (spawnSync e c args w)) (last args) =
           Some \<lparr>content = b, mtimeMs = clock (snd (spawnSync e c args w)), readable = True,
                 directory = False\<rparr>"
  using assms by (simp add: spawnSync_def Let_def)

lemma spawnSync_clock: "clock w \<le> clock (snd (spawnSync e c args w))"
  by (simp add: spawnSync_def Let_def)

lemma two_spawns_mtime:
  assumes "written (tool e c1 A (files w)) \<noteq> None" "A \<noteq> []"
    and "w1 = snd (spawnSync e c1 A w)"
    and "written (tool e c2 B (files w1)) \<noteq> None" "B \<noteq> []"
    and "last A \<noteq> last B"
    and "w2 = snd (spawnSync e c2 B w1)"
  shows "\<exists>fa fb. files w2 (last A) = Some fa \<and> files w2 (last B) = Some fb \<and> mtimeMs fa \<le> mtimeMs fb"
proof -
  obtain a where a: "written (tool e c1 A (files w)) = Some a" using assms(1) by auto
  obtain b where b: "written (tool e c2 B (files w1)) = Some b" using assms(4) by auto
  have fa1: "files w1 (last A) =
      Some \<lparr>content = a, mtimeMs = clock w1, readable = True, directory = False\<rparr>"
    unfolding assms(3) by (rule spawnSync_written[OF a assms(2)])
  have fa: "files w2 (last A) =
      Some \<lparr>content = a, mtimeMs = clock w1, readable = True, directory = False\<rparr>"
    unfolding assms(7) by (rule spawnSync_keeps[OF fa1 assms(6)])
  have fb: "files w2 (last B) =
      Some \<lparr>content = b, mtimeMs = clock w2, readable = True, directory = False\<rparr>"
    unfolding assms(7) by (rule spawnSync_written[OF b assms(5)])
  have "clock w1 \<le> clock w2" unfolding assms(7) by (rule spawnSync_clock)
  then show ?thesis using fa fb by simp
qed

lemma jpg_ne_webp: "join [d, n @ ''.jpg''] \<noteq> join [d, n @ ''.webp'']"
proof
  assume "join [d, n @ ''.jpg''] = join [d, n @ ''.webp'']"
  then have "last (join [d, n @ ''.jpg'']) = last (join [d, n @ ''.webp''])" by simp
  then show False using last_join2[of "''.webp''" d n] last_join2[of "''.jpg''" d n] by simp
qed

text \<open>
  C10. For an entry whose reference resolves to a readable PNG file, what the body of the
  loop runs is decided by the backend, for every host and every state of the derivatives.
  Under ffmpeg it runs ffmpeg for the WebP file if that is stale, and then, unless that
  run failed, ffmpeg for the JPEG file if that is stale in the world the first step
  left. Under sips and cwebp it runs sips for the JPEG file if that is stale, and then,
  unless that run failed, cwebp for the WebP file if that is stale. Nothing else is run.
  When both tools of a backend were run and left their files, the file of the second
  carries a modification time at or after that of the first: under ffmpeg the JPEG
  derivative is modified at or after the WebP derivative, under sips and cwebp the WebP
  derivative at or after the JPEG derivative.
\<close>

theorem png_derivative_order:
  assumes "image video = JStr imagePath" and "imagePath \<noteq> []"
    and "inputPath = resolveInputPath e imagePath"
    and "files w inputPath = Some f" and "readable f" and "\<not> directory f"
    and "take 8 (content f) = png_signature"
    and "jpgPath = join [dir (parse inputPath), name (parse inputPath) @ ''.jpg'']"
    and "webpPath = join [dir (parse inputPath), name (parse inputPath) @ ''.webp'']"
    and "toWebp = [''-y'', ''-i'', inputPath, ''-q:v'', ''70'', webpPath]"
    and "toJpg = [''-y'', ''-i'', inputPath, ''-q:v'', ''3'', jpgPath]"
    and "sipsJpg = [''-s'', ''format'', ''jpeg'', inputPath, ''--out'', jpgPath]"
    and "cwebpWebp = [''-q'', ''75'', inputPath, ''-o'', webpPath]"
    and "staleWebp = (shouldGenerate w inputPath webpPath = Ok True)"
    and "afterWebp = (if staleWebp then snd (spawnSync e ''ffmpeg'' toWebp w) else w)"
    and "staleJpg = (shouldGenerate w inputPath jpgPath = Ok True)"
    and "afterJpg = (if staleJpg then snd (spawnSync e ''sips'' sipsJpg w) else w)"
  shows
    "new_events w (snd (loop_body e Ffmpeg (Obj video) w)) =
       (if staleWebp then [Spawn ''ffmpeg'' toWebp (status (tool e ''ffmpeg'' toWebp (files w)))]
        else []) @
       (if (staleWebp \<longrightarrow> status (tool e ''ffmpeg'' toWebp (files w)) = 0) \<and>
           shouldGenerate afterWebp inputPath jpgPath = Ok True
        then [Spawn ''ffmpeg'' toJpg (status (tool e ''ffmpeg'' toJpg (files afterWebp)))]
        else []) \<and>
     new_events w (snd (loop_body e SipsCwebp (Obj video) w)) =
       (if staleJpg then [Spawn ''sips'' sipsJpg (status (tool e ''sips'' sipsJpg (files w)))]
        else []) @
       (if (staleJpg \<longrightarrow> status (tool e ''sips'' sipsJpg (files w)) = 0) \<and>
           shouldGenerate afterJpg inputPath webpPath = Ok True
        then [Spawn ''cwebp'' cwebpWebp (status (tool e ''cwebp'' cwebpWebp (files afterJpg)))]
        else []) \<and>
     (staleWebp \<and> status (tool e ''ffmpeg'' toWebp (files w)) = 0 \<and>
      written (tool e ''ffmpeg'' toWebp (files w)) \<noteq> None \<and>
      shouldGenerate afterWebp inputPath jpgPath = Ok True \<and>
      written (tool e ''ffmpeg'' toJpg (files afterWebp)) \<noteq> None \<longrightarrow>
      (\<exists>fw fj. files (snd (loop_body e Ffmpeg (Obj video) w)) webpPath = Some fw \<and>
               files (snd (loop_body e Ffmpeg (Obj video) w)) jpgPath = Some fj \<and>
               mtimeMs fw \<le> mtimeMs fj)) \<and>
     (staleJpg \<and> status (tool e ''sips'' sipsJpg (files w)) = 0 \<and>
      written (tool e ''sips'' sipsJpg (files w)) \<noteq> None \<and>
      shouldGenerate afterJpg inputPath webpPath = Ok True \<and>
      written (tool e ''cwebp'' cwebpWebp (files afterJpg)) \<noteq> None \<longrightarrow>
      (\<exists>fj fw. files (snd (loop_body e SipsCwebp (Obj video) w)) jpgPath = Some fj \<and>
               files (snd (loop_body e SipsCwebp (Obj video) w)) webpPath = Some fw \<and>
               mtimeMs fj \<le> mtimeMs fw))"
proof -
  have src: "files w inputPath \<noteq> None" using assms(4) by simp
  have f3: "files w (resolveInputPath e imagePath) = Some f" using assms(3,4) by simp
  note pw = process_video_png_world[OF assms(1,2) f3 assms(5,6,7)]
  have ne: "jpgPath \<noteq> webpPath" unfolding assms(8,9) by (rule jpg_ne_webp)
  \<comment> \<open>ffmpeg\<close>
  have gf1: "shouldGenerate w inputPath webpPath = Ok staleWebp"
    unfolding assms(14) by (rule shouldGenerate_Ok[OF src])
  have srcf: "files afterWebp inputPath \<noteq> None"
    unfolding assms(15) using src spawnSync_exists[of w inputPath e "''ffmpeg''" toWebp] by auto
  have gf2: "shouldGenerate afterWebp inputPath jpgPath = Ok (shouldGenerate afterWebp inputPath jpgPath = Ok True)"
    by (rule shouldGenerate_Ok[OF srcf])
  have wfF: "snd (process_video e Ffmpeg video w) =
      snd (andThen (observe (\<lambda>w. shouldGenerate w inputPath webpPath)) (\<lambda>s1.
           andThen (if s1 then runCommand e ''ffmpeg'' toWebp else ret ()) (\<lambda>_.
           andThen (observe (\<lambda>w. shouldGenerate w inputPath jpgPath))
             (\<lambda>s2. if s2 then runCommand e ''ffmpeg'' toJpg else ret ()))) w)"
    using pw[of Ffmpeg] unfolding convertWithFfmpeg_def assms(3,8,9,10,11) by simp
  have evF: "new_events w (snd (process_video e Ffmpeg video w)) =
       (if staleWebp then [Spawn ''ffmpeg'' toWebp (status (tool e ''ffmpeg'' toWebp (files w)))]
        else []) @
       (if (staleWebp \<longrightarrow> status (tool e ''ffmpeg'' toWebp (files w)) = 0) \<and>
           shouldGenerate afterWebp inputPath jpgPath = Ok True
        then [Spawn ''ffmpeg'' toJpg (status (tool e ''ffmpeg'' toJpg (files afterWebp)))]
        else [])"
    unfolding wfF
    by (rule two_steps_events[where ?g1.0 = "\<lambda>w. shouldGenerate w inputPath webpPath"
          and ?g2.0 = "\<lambda>w. shouldGenerate w inputPath jpgPath", OF gf1 assms(15) gf2])
  have woF: "snd (process_video e Ffmpeg video w) =
       (if (staleWebp \<longrightarrow> status (tool e ''ffmpeg'' toWebp (files w)) = 0) \<and>
           (shouldGenerate afterWebp inputPath jpgPath = Ok True)
        then snd (spawnSync e ''ffmpeg'' toJpg afterWebp) else afterWebp)"
    unfolding wfF
    by (rule two_steps_world[where ?g1.0 = "\<lambda>w. shouldGenerate w inputPath webpPath"
          and ?g2.0 = "\<lambda>w. shouldGenerate w inputPath jpgPath", OF gf1 assms(15) gf2])
  have mtF: "\<exists>fw fj. files (snd (process_video e Ffmpeg video w)) webpPath = Some fw \<and>
               files (snd (process_video e Ffmpeg video w)) jpgPath = Some fj \<and>
               mtimeMs fw \<le> mtimeMs fj"
    if h: "staleWebp" "status (tool e ''ffmpeg'' toWebp (files w)) = 0"
      "written (tool e ''ffmpeg'' toWebp (files w)) \<noteq> None"
      "shouldGenerate afterWebp inputPath jpgPath = Ok True"
      "written (tool e ''ffmpeg'' toJpg (files afterWebp)) \<noteq> None"
  proof -
    have 1: "afterWebp = snd (spawnSync e ''ffmpeg'' toWebp w)" using assms(15) h(1) by simp
    have 2: "snd (process_video e Ffmpeg video w) = snd (spawnSync e ''ffmpeg'' toJpg afterWebp)"
      using woF h by simp
    have "\<exists>fa fb. files (snd (process_video e Ffmpeg video w)) (last toWebp) = Some fa \<and>
                  files (snd (process_video e Ffmpeg video w)) (last toJpg) = Some fb \<and>
                  mtimeMs fa \<le> mtimeMs fb"
      by (rule two_spawns_mtime[OF h(3) _ 1 h(5) _ _ 2]) (use ne in \<open>simp_all add: assms(10,11)\<close>)
    then show ?thesis by (simp add: assms(10,11))
  qed
  \<comment> \<open>sips and cwebp\<close>
  have gs1: "shouldGenerate w inputPath jpgPath = Ok staleJpg"
    unfolding assms(16) by (rule shouldGenerate_Ok[OF src])
  have srcs: "files afterJpg inputPath \<noteq> None"
    unfolding assms(17) using src spawnSync_exists[of w inputPath e "''sips''" sipsJpg] by auto
  have gs2: "shouldGenerate afterJpg inputPath webpPath = Ok (shouldGenerate afterJpg inputPath webpPath = Ok True)"
    by (rule shouldGenerate_Ok[OF srcs])
  have wfS: "snd (process_video e SipsCwebp video w) =
      snd (andThen (observe (\<lambda>w. shouldGenerate w inputPath jpgPath)) (\<lambda>s1.
           andThen (if s1 then runCommand e ''sips'' sipsJpg else ret ()) (\<lambda>_.
           andThen (observe (\<lambda>w. shouldGenerate w inputPath webpPath))
             (\<lambda>s2. if s2 then runCommand e ''cwebp'' cwebpWebp else ret ()))) w)"
    using pw[of SipsCwebp] unfolding convertWithSipsAndCwebp_def assms(3,8,9,12,13) by simp
  have evS: "new_events w (snd (process_video e SipsCwebp video w)) =
       (if staleJpg then [Spawn ''sips'' sipsJpg (status (tool e ''sips'' sipsJpg (files w)))]
        else []) @
       (if (staleJpg \<longrightarrow> status (tool e ''sips'' sipsJpg (files w)) = 0) \<and>
           shouldGenerate afterJpg inputPath webpPath = Ok True
        then [Spawn ''cwebp'' cwebpWebp (status (tool e ''cwebp'' cwebpWebp (files afterJpg)))]
        else [])"
    unfolding wfS
    by (rule two_steps_events[where ?g1.0 = "\<lambda>w. shouldGenerate w inputPath jpgPath"
          and ?g2.0 = "\<lambda>w. shouldGenerate w inputPath webpPath", OF gs1 assms(17) gs2])
  have woS: "snd (process_video e SipsCwebp video w) =
       (if (staleJpg \<longrightarrow> status (tool e ''sips'' sipsJpg (files w)) = 0) \<and>
           (shouldGenerate afterJpg inputPath webpPath = Ok True)
        then snd (spawnSync e ''cwebp'' cwebpWebp afterJpg) else afterJpg)"
    unfolding wfS
    by (rule two_steps_world[where ?g1.0 = "\<lambda>w. shouldGenerate w inputPath jpgPath"
          and ?g2.0 = "\<lambda>w. shouldGenerate w inputPath webpPath", OF gs1 assms(17) gs2])
  have mtS: "\<exists>fj fw. files (snd (process_video e SipsCwebp video w)) jpgPath = Some fj \<and>
               files (snd (process_video e SipsCwebp video w)) webpPath = Some fw \<and>
               mtimeMs fj \<le> mtimeMs fw"
    if h: "staleJpg" "status (tool e ''sips'' sipsJpg (files w)) = 0"
      "written (tool e ''sips'' sipsJpg (files w)) \<noteq> None"
      "shouldGenerate afterJpg inputPath webpPath = Ok True"
      "written (tool e ''cwebp'' cwebpWebp (files afterJpg)) \<noteq> None"
  proof -
    have 1: "afterJpg = snd (spawnSync e ''sips'' sipsJpg w)" using assms(17) h(1) by simp
    have 2: "snd (process_video e SipsCwebp video w) = snd (spawnSync e ''cwebp'' cwebpWebp afterJpg)"
      using woS h by simp
    have "\<exists>fa fb. files (snd (process_video e SipsCwebp video w)) (last sipsJpg) = Some fa \<and>
                  files (snd (process_video e SipsCwebp video w)) (last cwebpWebp) = Some fb \<and>
                  mtimeMs fa \<le> mtimeMs fb"
      by (rule two_spawns_mtime[OF h(3) _ 1 h(5) _ _ 2]) (use ne in \<open>simp_all add: assms(12,13)\<close>)
    then show ?thesis by (simp add: assms(12,13))
  qed
  show ?thesis unfolding snd_loop_body_Obj using evF evS mtF mtS by blast
qed


theorem png_derivative_order_witness:
  "new_events (site_world cat_doc) (snd (loop_body ffmpeg_host Ffmpeg (Obj cat_entry) (site_world cat_doc))) =
     [Spawn ''ffmpeg'' [''-y'', ''-i'', cat_png, ''-q:v'', ''70'', cat_webp] 0,
      Spawn ''ffmpeg'' [''-y'', ''-i'', cat_png, ''-q:v'', ''3'', cat_jpg] 0] \<and>
   (\<exists>fw fj.
      files (snd (loop_body ffmpeg_host Ffmpeg (Obj cat_entry) (site_world cat_doc))) cat_webp = Some fw \<and>
      files (snd (loop_body ffmpeg_host Ffmpeg (Obj cat_entry) (site_world cat_doc))) cat_jpg = Some fj \<and>
      mtimeMs fw \<le> mtimeMs fj) \<and>
   new_events (site_world cat_doc) (snd (loop_body ffmpeg_host SipsCwebp (Obj cat_entry) (site_world cat_doc))) =
     [Spawn ''sips'' [''-s'', ''format'', ''jpeg'', cat_png, ''--out'', cat_jpg] 0,
      Spawn ''cwebp'' [''-q'', ''75'', cat_png, ''-o'', cat_webp] 0] \<and>
   new_events edited_world (snd (loop_body ffmpeg_host Ffmpeg (Obj cat_entry) edited_world)) =
     [Spawn ''ffmpeg'' [''-y'', ''-i'', cat_png, ''-q:v'', ''70'', cat_webp] 0] \<and>
   new_events edited_world (snd (loop_body ffmpeg_host SipsCwebp (Obj cat_entry) edited_world)) =
     [Spawn ''cwebp'' [''-q'', ''75'', cat_png, ''-o'', cat_webp] 0] \<and>
   new_events (site_world cat_doc) (snd (loop_body webp_only_host Ffmpeg (Obj cat_entry) (site_world cat_doc))) =
     [Spawn ''ffmpeg'' [''-y'', ''-i'', cat_png, ''-q:v'', ''70'', cat_webp] 0,
      Spawn ''ffmpeg'' [''-y'', ''-i'', cat_png, ''-q:v'', ''3'', cat_jpg] 1] \<and>
   new_events (site_world cat_doc) (snd (loop_body webp_only_host SipsCwebp (Obj cat_entry) (site_world cat_doc))) =
     [Spawn ''sips'' [''-s'', ''format'', ''jpeg'', cat_png, ''--out'', cat_jpg] 1]"
proof -
  let ?w = "site_world cat_doc"
  let ?W = "[''-y'', ''-i'', cat_png, ''-q:v'', ''70'', cat_webp]"
  let ?J = "[''-y'', ''-i'', cat_png, ''-q:v'', ''3'', cat_jpg]"
  let ?SJ = "[''-s'', ''format'', ''jpeg'', cat_png, ''--out'', cat_jpg]"
  let ?CW = "[''-q'', ''75'', cat_png, ''-o'', cat_webp]"
  let ?png = "\<lparr>content = png_signature @ [0, 0, 0, 0x0d], mtimeMs = 100, readable = True,
               directory = False\<rparr>"
  have a1: "image cat_entry = JStr ''cat.png''" by code_simp
  have a2: "''cat.png'' \<noteq> []" by simp
  have a3: "cat_png = resolveInputPath ffmpeg_host ''cat.png''" by code_simp
  have a3b: "cat_png = resolveInputPath webp_only_host ''cat.png''" by code_simp
  have a4: "files ?w cat_png = Some ?png" by code_simp
  have a4e: "files edited_world cat_png = Some ?png" by code_simp
  have a5: "readable ?png" by simp
  have a6: "\<not> directory ?png" by simp
  have a7: "take 8 (content ?png) = png_signature" by (simp add: png_signature_def)
  have a8: "cat_jpg = join [dir (parse cat_png), name (parse cat_png) @ ''.jpg'']" by code_simp
  have a9: "cat_webp = join [dir (parse cat_png), name (parse cat_png) @ ''.webp'']" by code_simp
  note fresh = png_derivative_order[OF a1 a2 a3 a4 a5 a6 a7 a8 a9 refl refl refl refl refl refl refl refl]
  note edited = png_derivative_order[OF a1 a2 a3 a4e a5 a6 a7 a8 a9 refl refl refl refl refl refl refl refl]
  note picky = png_derivative_order[OF a1 a2 a3b a4 a5 a6 a7 a8 a9 refl refl refl refl refl refl refl refl]
  \<comment> \<open>both derivatives absent\<close>
  have s1: "(shouldGenerate ?w cat_png cat_webp = Ok True) = True" by code_simp
  have s2: "(shouldGenerate ?w cat_png cat_jpg = Ok True) = True" by code_simp
  have s3: "(shouldGenerate (snd (spawnSync ffmpeg_host ''ffmpeg'' ?W ?w)) cat_png cat_jpg = Ok True) = True"
    by code_simp
  have s4: "(shouldGenerate (snd (spawnSync ffmpeg_host ''sips'' ?SJ ?w)) cat_png cat_webp = Ok True) = True"
    by code_simp
  have t: "status (tool ffmpeg_host c args fs) = 0" "written (tool ffmpeg_host c args fs) \<noteq> None"
    for c args fs by (simp_all add: ffmpeg_host_def site_tool_def)
  have 1: "new_events ?w (snd (loop_body ffmpeg_host Ffmpeg (Obj cat_entry) ?w)) =
             [Spawn ''ffmpeg'' ?W 0, Spawn ''ffmpeg'' ?J 0]"
    using fresh[THEN conjunct1] by (simp add: s1 s3 t)
  have 2: "\<exists>fw fj.
      files (snd (loop_body ffmpeg_host Ffmpeg (Obj cat_entry) ?w)) cat_webp = Some fw \<and>
      files (snd (loop_body ffmpeg_host Ffmpeg (Obj cat_entry) ?w)) cat_jpg = Some fj \<and>
      mtimeMs fw \<le> mtimeMs fj"
    using fresh[THEN conjunct2, THEN conjunct2, THEN conjunct1] by (simp add: s1 s3 t)
  have 3: "new_events ?w (snd (loop_body ffmpeg_host SipsCwebp (Obj cat_entry) ?w)) =
             [Spawn ''sips'' ?SJ 0, Spawn ''cwebp'' ?CW 0]"
    using fresh[THEN conjunct2, THEN conjunct1] by (simp add: s2 s4 t)
  \<comment> \<open>a stale WebP file and a current JPEG file\<close>
  have e1: "(shouldGenerate edited_world cat_png cat_webp = Ok True) = True" by code_simp
  have e2: "(shouldGenerate edited_world cat_png cat_jpg = Ok True) = False" by code_simp
  have e3: "(shouldGenerate (snd (spawnSync ffmpeg_host ''ffmpeg'' ?W edited_world)) cat_png cat_jpg = Ok True) = False"
    by code_simp
  have 4: "new_events edited_world (snd (loop_body ffmpeg_host Ffmpeg (Obj cat_entry) edited_world)) =
             [Spawn ''ffmpeg'' ?W 0]"
    using edited[THEN conjunct1] by (simp add: e1 e3 t)
  have 5: "new_events edited_world (snd (loop_body ffmpeg_host SipsCwebp (Obj cat_entry) edited_world)) =
             [Spawn ''cwebp'' ?CW 0]"
    using edited[THEN conjunct2, THEN conjunct1] by (simp add: e1 e2 t)
  \<comment> \<open>a host whose tools cannot write JPEG files\<close>
  have p1: "status (tool webp_only_host ''ffmpeg'' ?W fs) = 0"
           "status (tool webp_only_host ''ffmpeg'' ?J fs) = 1"
           "status (tool webp_only_host ''sips'' ?SJ fs) = 1" for fs
    by (simp_all add: webp_only_host_def ffmpeg_host_def webp_only_tool_def site_tool_def
          broken_tool_def cat_png_def cat_webp_def cat_jpg_def)
  have p3: "(shouldGenerate (snd (spawnSync webp_only_host ''ffmpeg'' ?W ?w)) cat_png cat_jpg = Ok True) = True"
    by code_simp
  have 6: "new_events ?w (snd (loop_body webp_only_host Ffmpeg (Obj cat_entry) ?w)) =
             [Spawn ''ffmpeg'' ?W 0, Spawn ''ffmpeg'' ?J 1]"
    using picky[THEN conjunct1] by (simp add: s1 p3 p1)
  have 7: "new_events ?w (snd (loop_body webp_only_host SipsCwebp (Obj cat_entry) ?w)) =
             [Spawn ''sips'' ?SJ 1]"
    using picky[THEN conjunct2, THEN conjunct1] by (simp add: s2 p1)
  show ?thesis using 1 2 3 4 5 6 7 by blast
qed

subsection \<open>The shape of a run\<close>

lemma main_unfold:
  "main e w =
     (case pickConverter e w of
        (Throw x, w1) \<Rightarrow> (Throw x, w1)
      | (Ok c, w1) \<Rightarrow>
          (case readJson e (videosPath e) w1 of
             (Throw x, w2) \<Rightarrow> (Throw x, w2)
           | (Ok NotIterable, w2) \<Rightarrow> (Throw TypeError, w2)
           | (Ok (Items vs), w2) \<Rightarrow>
               (case for_videos e c vs w2 of
                  (Throw x, w3) \<Rightarrow> (Throw x, w3)
                | (Ok (vs', n, u), w3) \<Rightarrow>
                    (case (if u then writeJson e (videosPath e) vs' w3 else (Ok (), w3)) of
                       (Throw x, w4) \<Rightarrow> (Throw x, w4)
                     | (Ok _, w4) \<Rightarrow> (Ok vs', w4\<lparr>trace := trace w4 @ [Summary n c]\<rparr>)))))"
  by (simp add: main_def andThen_def ret_def throw_def emit_def
           split: prod.splits result.splits document.splits)

lemma pickConverter_eq:
  "pickConverter e w =
     (if on_PATH e ''ffmpeg'' then (Ok Ffmpeg, w\<lparr>trace := trace w @ [Probe ''ffmpeg'']\<rparr>)
      else if \<not> on_PATH e ''sips''
      then (Throw NoConverter, w\<lparr>trace := trace w @ [Probe ''ffmpeg'', Probe ''sips'']\<rparr>)
      else (if on_PATH e ''cwebp'' then Ok SipsCwebp else Throw NoConverter,
            w\<lparr>trace := trace w @ [Probe ''ffmpeg'', Probe ''sips'', Probe ''cwebp'']\<rparr>))"
  by (simp add: pickConverter_def commandExists_def andThen_def emit_def ret_def throw_def)

lemma readJson_snd: "snd (readJson e p w) = w\<lparr>trace := trace w @ [ReadFile p]\<rparr>"
  by (simp add: readJson_def andThen_def emit_def observe_def)

lemma writeJson_trace: "trace (snd (writeJson e p d w)) = trace w @ [WriteFile p]"
  by (simp add: writeJson_def Let_def split: write_outcome.splits)

lemma for_videos_trace:
  "\<exists>evs. trace (snd (for_videos e c vs w)) = trace w @ evs \<and> list_all loop_event evs"
  using tame_for_videos[of e w c vs] by (cases "for_videos e c vs w") (auto simp: tame_def)

lemma pickConverter_shape:
  obtains probes r where "pickConverter e w = (r, w\<lparr>trace := trace w @ probes\<rparr>)"
    "list_all is_probe probes" "r = Throw NoConverter \<or> (\<exists>c. r = Ok c)"
proof -
  have "\<exists>probes r. pickConverter e w = (r, w\<lparr>trace := trace w @ probes\<rparr>) \<and>
          list_all is_probe probes \<and> (r = Throw NoConverter \<or> (\<exists>c. r = Ok c))"
  proof (cases "on_PATH e ''ffmpeg''")
    case True
    then have "pickConverter e w = (Ok Ffmpeg, w\<lparr>trace := trace w @ [Probe ''ffmpeg'']\<rparr>) \<and>
               list_all is_probe [Probe ''ffmpeg'']"
      by (simp add: pickConverter_eq)
    then show ?thesis by blast
  next
    case False
    show ?thesis
    proof (cases "on_PATH e ''sips''")
      case True
      show ?thesis
      proof (cases "on_PATH e ''cwebp''")
        case cw: True
        then have "pickConverter e w =
                   (Ok SipsCwebp,
                    w\<lparr>trace := trace w @ [Probe ''ffmpeg'', Probe ''sips'', Probe ''cwebp'']\<rparr>) \<and>
                 list_all is_probe [Probe ''ffmpeg'', Probe ''sips'', Probe ''cwebp'']"
          using False True by (simp add: pickConverter_eq)
        then show ?thesis by blast
      next
        case cw: False
        then have "pickConverter e w =
                   (Throw NoConverter,
                    w\<lparr>trace := trace w @ [Probe ''ffmpeg'', Probe ''sips'', Probe ''cwebp'']\<rparr>) \<and>
                 list_all is_probe [Probe ''ffmpeg'', Probe ''sips'', Probe ''cwebp'']"
          using False True by (simp add: pickConverter_eq)
        then show ?thesis by blast
      qed
    next
      case nos: False
      then have "pickConverter e w =
                   (Throw NoConverter, w\<lparr>trace := trace w @ [Probe ''ffmpeg'', Probe ''sips'']\<rparr>) \<and>
                 list_all is_probe [Probe ''ffmpeg'', Probe ''sips'']"
        using False by (simp add: pickConverter_eq)
      then show ?thesis by blast
    qed
  qed
  then show ?thesis using that by blast
qed

lemma readJson_eq:
  "readJson e p w =
     ((case files w p of
         None \<Rightarrow> Throw (ENOENT p)
       | Some f \<Rightarrow>
           if \<not> readable f then Throw (EACCES p)
           else if directory f then Throw (EISDIR p)
           else (case JSON_parse e (content f) of
                   None \<Rightarrow> Throw SyntaxError
                 | Some d \<Rightarrow> Ok d)),
      w\<lparr>trace := trace w @ [ReadFile p]\<rparr>)"
  by (simp add: readJson_def andThen_def emit_def observe_def)

lemma readJson_Ok:
  "fst (readJson e p w) = Ok d \<Longrightarrow>
   \<exists>f. files w p = Some f \<and> readable f \<and> \<not> directory f \<and> JSON_parse e (content f) = Some d"
  by (auto simp: readJson_eq split: option.splits if_splits)

lemma readJson_not_cf: "fst (readJson e p w) \<noteq> Throw (CommandFailed c m)"
  by (auto simp: readJson_eq split: option.splits if_splits)

lemma main_cases:
  obtains
    (NoBackend) probes where
      "list_all is_probe probes"
      "main e w = (Throw NoConverter, w\<lparr>trace := trace w @ probes\<rparr>)"
  | (LoadFails) probes x where
      "list_all is_probe probes"
      "\<And>c m. x \<noteq> CommandFailed c m"
      "main e w = (Throw x, w\<lparr>trace := trace w @ probes @ [ReadFile (videosPath e)]\<rparr>)"
  | (Loop) probes c f vs w2 r3 w3 where
      "list_all is_probe probes"
      "pickConverter e w = (Ok c, w\<lparr>trace := trace w @ probes\<rparr>)"
      "files w (videosPath e) = Some f" "readable f" "\<not> directory f"
      "JSON_parse e (content f) = Some (Items vs)"
      "w2 = w\<lparr>trace := trace w @ probes @ [ReadFile (videosPath e)]\<rparr>"
      "for_videos e c vs w2 = (r3, w3)"
      "main e w =
         (case r3 of
            Throw x \<Rightarrow> (Throw x, w3)
          | Ok (vs', n, u) \<Rightarrow>
              (case (if u then writeJson e (videosPath e) vs' w3 else (Ok (), w3)) of
                 (Throw x, w4) \<Rightarrow> (Throw x, w4)
               | (Ok _, w4) \<Rightarrow> (Ok vs', w4\<lparr>trace := trace w4 @ [Summary n c]\<rparr>)))"
proof -
  obtain probes r1 where p: "pickConverter e w = (r1, w\<lparr>trace := trace w @ probes\<rparr>)"
    "list_all is_probe probes" "r1 = Throw NoConverter \<or> (\<exists>c. r1 = Ok c)"
    by (rule pickConverter_shape)
  define w1 where "w1 = w\<lparr>trace := trace w @ probes\<rparr>"
  define w2 where "w2 = w\<lparr>trace := trace w @ probes @ [ReadFile (videosPath e)]\<rparr>"
  show ?thesis
  proof (cases "r1 = Throw NoConverter")
    case True
    then have "main e w = (Throw NoConverter, w\<lparr>trace := trace w @ probes\<rparr>)"
      using p(1) by (simp add: main_unfold)
    then show ?thesis using NoBackend p(2) by blast
  next
    case False
    then obtain c where c: "r1 = Ok c" using p(3) by blast
    obtain r2 where r2: "readJson e (videosPath e) w1 = (r2, w2)"
      by (simp add: readJson_eq w1_def w2_def)
    have fs: "files w1 = files w" by (simp add: w1_def)
    show ?thesis
    proof (cases r2)
      case (Throw x)
      have "\<And>c m. x \<noteq> CommandFailed c m"
        using readJson_not_cf[of e "videosPath e" w1] r2 Throw by auto
      moreover have "main e w = (Throw x, w2)"
        using p(1) c r2 Throw by (simp add: main_unfold w1_def)
      ultimately show ?thesis using LoadFails[of probes x] p(2) by (simp add: w2_def)
    next
      case (Ok doc)
      obtain f where f: "files w (videosPath e) = Some f" "readable f" "\<not> directory f"
        "JSON_parse e (content f) = Some doc"
        using readJson_Ok[of e "videosPath e" w1 doc] r2 Ok fs by auto
      show ?thesis
      proof (cases doc)
        case NotIterable
        have "main e w = (Throw TypeError, w2)"
          using p(1) c r2 Ok NotIterable by (simp add: main_unfold w1_def)
        then show ?thesis using LoadFails[of probes TypeError] p(2) by (simp add: w2_def)
      next
        case (Items vs)
        obtain r3 w3 where r3: "for_videos e c vs w2 = (r3, w3)" by (cases "for_videos e c vs w2")
        have "main e w =
         (case r3 of
            Throw x \<Rightarrow> (Throw x, w3)
          | Ok (vs', n, u) \<Rightarrow>
              (case (if u then writeJson e (videosPath e) vs' w3 else (Ok (), w3)) of
                 (Throw x, w4) \<Rightarrow> (Throw x, w4)
               | (Ok _, w4) \<Rightarrow> (Ok vs', w4\<lparr>trace := trace w4 @ [Summary n c]\<rparr>)))"
          using p(1) c r2 Ok Items r3 by (simp add: main_unfold w1_def split: result.splits)
        then show ?thesis
          using Loop[of probes c f vs w2 r3 w3] p(1,2) c f Items r3 by (simp add: w2_def)
      qed
    qed
  qed
qed

subsection \<open>An entry with a JPEG source\<close>






subsection \<open>Sources that cannot be classified\<close>








subsection \<open>Selection and load\<close>

lemma loop_event_not: "loop_event ev \<Longrightarrow> \<not> is_read ev \<and> \<not> is_probe ev \<and> \<not> is_write ev"
  by (cases ev) auto

lemma list_all_loop_event:
  "list_all loop_event evs \<Longrightarrow>
   \<not> list_ex is_read evs \<and> \<not> list_ex is_probe evs \<and> \<not> list_ex is_write evs"
  by (induction evs) (auto simp: loop_event_not)

lemma main_after_load:
  assumes "pickConverter e w = (Ok c, w1)"
  shows "\<exists>rest. trace (snd (main e w)) = trace w1 @ ReadFile (videosPath e) # rest \<and>
               \<not> list_ex is_read rest \<and> \<not> list_ex is_probe rest"
proof -
  define w2 where "w2 = w1\<lparr>trace := trace w1 @ [ReadFile (videosPath e)]\<rparr>"
  obtain r2 where r2: "readJson e (videosPath e) w1 = (r2, w2)"
    using readJson_snd[of e "videosPath e" w1] unfolding w2_def
    by (cases "readJson e (videosPath e) w1") simp
  have t2: "trace w2 = trace w1 @ [ReadFile (videosPath e)]" by (simp add: w2_def)
  show ?thesis
  proof (cases r2)
    case (Throw x)
    then show ?thesis using assms r2 t2 by (simp add: main_unfold)
  next
    case (Ok doc)
    show ?thesis
    proof (cases doc)
      case NotIterable
      then show ?thesis using assms r2 t2 Ok by (simp add: main_unfold)
    next
      case (Items vs)
      obtain r3 w3 where r3: "for_videos e c vs w2 = (r3, w3)" by (cases "for_videos e c vs w2")
      obtain evs where evs: "trace w3 = trace w2 @ evs" "list_all loop_event evs"
        using for_videos_trace[of e c vs w2] r3 by auto
      note no = list_all_loop_event[OF evs(2)]
      show ?thesis
      proof (cases r3)
        case (Throw x)
        then show ?thesis using assms r2 Ok Items r3 t2 evs(1) no by (simp add: main_unfold)
      next
        case ok3: (Ok res)
        obtain vs' n u where res: "res = (vs', n, u)" by (cases res)
        show ?thesis
        proof (cases u)
          case False
          then show ?thesis using assms r2 Ok Items r3 ok3 res t2 evs(1) no
            by (simp add: main_unfold)
        next
          case True
          obtain r4 w4 where r4: "writeJson e (videosPath e) vs' w3 = (r4, w4)"
            by (cases "writeJson e (videosPath e) vs' w3")
          have t4: "trace w4 = trace w3 @ [WriteFile (videosPath e)]"
            using writeJson_trace[of e "videosPath e" vs' w3] r4 by simp
          show ?thesis using assms r2 Ok Items r3 ok3 res True r4 t2 t4 evs(1) no
            by (cases r4) (simp_all add: main_unfold)
        qed
      qed
    qed
  qed
qed


text \<open>
  C7, amended. The first step of a run is the selection of the backend: it probes for
  ffmpeg, and only if that is missing for sips and then cwebp, and does nothing else. If
  no backend is found the run ends there with that error, and the metadata file is never
  asked for. Only after a backend was selected is the metadata loaded, as the very next
  step and once; if the load fails (the file is absent, unreadable or not JSON) the run
  ends with that error right after the read, before any entry is processed.
\<close>

theorem selection_precedes_load:
  "(\<exists>probes. snd (pickConverter e w) = w\<lparr>trace := trace w @ Probe ''ffmpeg'' # probes\<rparr> \<and>
             list_all is_probe probes) \<and>
   (fst (pickConverter e w) =
      (if on_PATH e ''ffmpeg'' then Ok Ffmpeg
       else if on_PATH e ''sips'' \<and> on_PATH e ''cwebp'' then Ok SipsCwebp
       else Throw NoConverter)) \<and>
   (\<forall>x. fst (pickConverter e w) = Throw x \<longrightarrow>
        main e w = (Throw x, snd (pickConverter e w))) \<and>
   (\<forall>c. fst (pickConverter e w) = Ok c \<longrightarrow>
        (\<exists>rest. trace (snd (main e w)) =
                  trace (snd (pickConverter e w)) @ ReadFile (videosPath e) # rest \<and>
                \<not> list_ex is_read rest \<and> \<not> list_ex is_probe rest) \<and>
        (\<forall>x. fst (readJson e (videosPath e) (snd (pickConverter e w))) = Throw x \<longrightarrow>
             main e w = (Throw x, snd (readJson e (videosPath e) (snd (pickConverter e w)))))) \<and>
   (files w (videosPath e) = None \<longrightarrow>
      fst (readJson e (videosPath e) (snd (pickConverter e w))) = Throw (ENOENT (videosPath e))) \<and>
   (\<forall>f. files w (videosPath e) = Some f \<and> readable f \<and> \<not> directory f \<and>
        JSON_parse e (content f) = None \<longrightarrow>
      fst (readJson e (videosPath e) (snd (pickConverter e w))) = Throw SyntaxError)"
proof -
  obtain r1 w1 where p: "pickConverter e w = (r1, w1)" by (cases "pickConverter e w")
  have 1: "\<exists>probes. snd (pickConverter e w) = w\<lparr>trace := trace w @ Probe ''ffmpeg'' # probes\<rparr> \<and>
             list_all is_probe probes"
  proof (cases "on_PATH e ''ffmpeg''")
    case True
    then have "snd (pickConverter e w) = w\<lparr>trace := trace w @ Probe ''ffmpeg'' # []\<rparr> \<and>
               list_all is_probe []"
      by (simp add: pickConverter_eq)
    then show ?thesis by blast
  next
    case False
    show ?thesis
    proof (cases "on_PATH e ''sips''")
      case True
      then have "snd (pickConverter e w) =
                   w\<lparr>trace := trace w @ Probe ''ffmpeg'' # [Probe ''sips'', Probe ''cwebp'']\<rparr> \<and>
                 list_all is_probe [Probe ''sips'', Probe ''cwebp'']"
        using False by (simp add: pickConverter_eq)
      then show ?thesis by blast
    next
      case nos: False
      then have "snd (pickConverter e w) =
                   w\<lparr>trace := trace w @ Probe ''ffmpeg'' # [Probe ''sips'']\<rparr> \<and>
                 list_all is_probe [Probe ''sips'']"
        using False by (simp add: pickConverter_eq)
      then show ?thesis by blast
    qed
  qed
  have 2: "fst (pickConverter e w) =
      (if on_PATH e ''ffmpeg'' then Ok Ffmpeg
       else if on_PATH e ''sips'' \<and> on_PATH e ''cwebp'' then Ok SipsCwebp
       else Throw NoConverter)"
    by (simp add: pickConverter_eq)
  have 3: "main e w = (Throw x, snd (pickConverter e w))" if "fst (pickConverter e w) = Throw x" for x
    using that p by (simp add: main_unfold)
  have 4: "\<exists>rest. trace (snd (main e w)) =
                  trace (snd (pickConverter e w)) @ ReadFile (videosPath e) # rest \<and>
                \<not> list_ex is_read rest \<and> \<not> list_ex is_probe rest"
    if "fst (pickConverter e w) = Ok c" for c
    using main_after_load[of e w c w1] that p by simp
  have 5: "main e w = (Throw x, snd (readJson e (videosPath e) (snd (pickConverter e w))))"
    if "fst (pickConverter e w) = Ok c"
       "fst (readJson e (videosPath e) (snd (pickConverter e w))) = Throw x" for c x
    using that p by (cases "readJson e (videosPath e) w1") (simp add: main_unfold)
  have fs: "files (snd (pickConverter e w)) = files w" by (simp add: pickConverter_eq)
  have 6: "fst (readJson e (videosPath e) (snd (pickConverter e w))) = Throw (ENOENT (videosPath e))"
    if "files w (videosPath e) = None"
    using that fs by (simp add: readJson_def andThen_def emit_def observe_def)
  have 7: "fst (readJson e (videosPath e) (snd (pickConverter e w))) = Throw SyntaxError"
    if "files w (videosPath e) = Some f" "readable f" "\<not> directory f"
       "JSON_parse e (content f) = None" for f
    using that fs by (simp add: readJson_def andThen_def emit_def observe_def)
  show ?thesis using 1 2 3 4 5 6 7 by blast
qed

theorem selection_precedes_load_witness:
  "fst (main bare_host empty_world) = Throw NoConverter \<and>
   trace (snd (main bare_host empty_world)) = [Probe ''ffmpeg'', Probe ''sips''] \<and>
   fst (main ffmpeg_host empty_world) = Throw (ENOENT videos_json) \<and>
   trace (snd (main ffmpeg_host empty_world)) = [Probe ''ffmpeg'', ReadFile videos_json] \<and>
   fst (main sips_host (site_world [0x7b])) = Throw SyntaxError \<and>
   (\<exists>rest. trace (snd (main ffmpeg_host (site_world dog_doc))) =
            [Probe ''ffmpeg''] @ ReadFile videos_json # rest \<and>
            \<not> list_ex is_read rest \<and> \<not> list_ex is_probe rest)"
proof -
  note spec = selection_precedes_load
  \<comment> \<open>no backend\<close>
  have b1: "fst (pickConverter bare_host empty_world) = Throw NoConverter" by code_simp
  have b2: "trace (snd (pickConverter bare_host empty_world)) = [Probe ''ffmpeg'', Probe ''sips'']"
    by code_simp
  have bm: "main bare_host empty_world = (Throw NoConverter, snd (pickConverter bare_host empty_world))"
    using spec[of bare_host empty_world, THEN conjunct2, THEN conjunct2, THEN conjunct1] b1
    by blast
  have 1: "fst (main bare_host empty_world) = Throw NoConverter" using bm by simp
  have 2: "trace (snd (main bare_host empty_world)) = [Probe ''ffmpeg'', Probe ''sips'']"
    using bm b2 by simp
  \<comment> \<open>a backend, no metadata file\<close>
  have f1: "fst (pickConverter ffmpeg_host empty_world) = Ok Ffmpeg" by code_simp
  have f2: "files empty_world (videosPath ffmpeg_host) = None" by code_simp
  have f3: "videosPath ffmpeg_host = videos_json" by code_simp
  have f4: "trace (snd (readJson ffmpeg_host (videosPath ffmpeg_host)
                     (snd (pickConverter ffmpeg_host empty_world)))) =
            [Probe ''ffmpeg'', ReadFile videos_json]" by code_simp
  have fr: "fst (readJson ffmpeg_host (videosPath ffmpeg_host) (snd (pickConverter ffmpeg_host empty_world))) =
            Throw (ENOENT (videosPath ffmpeg_host))"
    using spec[of ffmpeg_host empty_world, THEN conjunct2, THEN conjunct2, THEN conjunct2,
        THEN conjunct2, THEN conjunct1] f2 by blast
  have fm: "main ffmpeg_host empty_world =
            (Throw (ENOENT (videosPath ffmpeg_host)),
             snd (readJson ffmpeg_host (videosPath ffmpeg_host) (snd (pickConverter ffmpeg_host empty_world))))"
    using spec[of ffmpeg_host empty_world, THEN conjunct2, THEN conjunct2, THEN conjunct2,
        THEN conjunct1] f1 fr by blast
  have 3: "fst (main ffmpeg_host empty_world) = Throw (ENOENT videos_json)" using fm f3 by simp
  have 4: "trace (snd (main ffmpeg_host empty_world)) = [Probe ''ffmpeg'', ReadFile videos_json]"
    using fm f4 by simp
  \<comment> \<open>a backend, a metadata file that is not JSON\<close>
  let ?w = "site_world [0x7b]"
  let ?vf = "\<lparr>content = [0x7b], mtimeMs = 50, readable = True, directory = False\<rparr>"
  have s1: "fst (pickConverter sips_host ?w) = Ok SipsCwebp" by code_simp
  have s2: "files ?w (videosPath sips_host) = Some ?vf" by code_simp
  have s3: "JSON_parse sips_host (content ?vf) = None" by code_simp
  have sr: "fst (readJson sips_host (videosPath sips_host) (snd (pickConverter sips_host ?w))) =
            Throw SyntaxError"
    using spec[of sips_host ?w, THEN conjunct2, THEN conjunct2, THEN conjunct2,
        THEN conjunct2, THEN conjunct2] s2 s3 by simp
  have sm: "main sips_host ?w =
            (Throw SyntaxError,
             snd (readJson sips_host (videosPath sips_host) (snd (pickConverter sips_host ?w))))"
    using spec[of sips_host ?w, THEN conjunct2, THEN conjunct2, THEN conjunct2,
        THEN conjunct1] s1 sr by blast
  have 5: "fst (main sips_host ?w) = Throw SyntaxError" using sm by simp
  \<comment> \<open>a run that goes through\<close>
  have d1: "fst (pickConverter ffmpeg_host (site_world dog_doc)) = Ok Ffmpeg" by code_simp
  have d2: "trace (snd (pickConverter ffmpeg_host (site_world dog_doc))) = [Probe ''ffmpeg'']"
    by code_simp
  have 6: "\<exists>rest. trace (snd (main ffmpeg_host (site_world dog_doc))) =
            [Probe ''ffmpeg''] @ ReadFile videos_json # rest \<and>
            \<not> list_ex is_read rest \<and> \<not> list_ex is_probe rest"
    using spec[of ffmpeg_host "site_world dog_doc", THEN conjunct2, THEN conjunct2, THEN conjunct2,
        THEN conjunct1] d1
    unfolding d2 f3 by blast
  show ?thesis using 1 2 3 4 5 6 by blast
qed

text \<open>
  C7 as stated fails: the load is not the first step. On a host with no converter and
  no metadata file the load would fail, but the run never gets to it: it ends with the
  error of the selection, having only probed. And where both steps succeed the probe
  comes before the read.
\<close>

theorem selection_is_first_step:
  "files empty_world (videosPath bare_host) = None \<and>
   fst (readJson bare_host (videosPath bare_host) empty_world) = Throw (ENOENT videos_json) \<and>
   fst (main bare_host empty_world) = Throw NoConverter \<and>
   trace (snd (main bare_host empty_world)) = [Probe ''ffmpeg'', Probe ''sips''] \<and>
   take 2 (trace (snd (main ffmpeg_host (site_world dog_doc)))) =
     [Probe ''ffmpeg'', ReadFile videos_json]"
proof -
  have "files empty_world (videosPath bare_host) = None" by code_simp
  moreover have "fst (readJson bare_host (videosPath bare_host) empty_world) =
                 Throw (ENOENT videos_json)" by code_simp
  moreover have "fst (main bare_host empty_world) = Throw NoConverter" by code_simp
  moreover have "trace (snd (main bare_host empty_world)) = [Probe ''ffmpeg'', Probe ''sips'']"
    by code_simp
  moreover have "take 2 (trace (snd (main ffmpeg_host (site_world dog_doc)))) =
     [Probe ''ffmpeg'', ReadFile videos_json]" by code_simp
  ultimately show ?thesis by blast
qed

end
